theory Spec2Isabelle
  imports Complex_Main "HOL-Library.Sublist"
begin

section \<open>Strings, constants and validation (utils/constants.ts, utils/validation.ts)\<close>

text \<open>
  A JavaScript string is modelled as a \<^typ>\<open>string\<close>: the sequence of its code units,
  restricted to the code units below 256. A timestamp (the ISO string that
  \<open>getCurrentTimestamp\<close> returns) is modelled as the instant it denotes, in milliseconds,
  so that \<open>new Date(s).getTime()\<close> is the identity. \<open>Date.now()\<close> and \<open>generateId()\<close>
  are inputs of every operation that calls them (\<open>now\<close>, \<open>gen\<close>).
\<close>

type_synonym timestamp = nat

definition MIN_PASSWORD_LENGTH :: nat where "MIN_PASSWORD_LENGTH = 6"
definition MAX_PASSWORD_LENGTH :: nat where "MAX_PASSWORD_LENGTH = 50"
definition MAX_EMAIL_LENGTH :: nat where "MAX_EMAIL_LENGTH = 100"
definition MIN_LIST_TITLE_LENGTH :: nat where "MIN_LIST_TITLE_LENGTH = 1"
definition MAX_LIST_TITLE_LENGTH :: nat where "MAX_LIST_TITLE_LENGTH = 100"
definition MIN_TASK_TEXT_LENGTH :: nat where "MIN_TASK_TEXT_LENGTH = 1"
definition MAX_TASK_TEXT_LENGTH :: nat where "MAX_TASK_TEXT_LENGTH = 200"
definition MAX_TASKS_PER_LIST :: nat where "MAX_TASKS_PER_LIST = 100"
definition MAX_SHARED_USERS :: nat where "MAX_SHARED_USERS = 10"

definition LISTS_PREFIX :: string where "LISTS_PREFIX = ''lists_''"

text \<open>
  The \<open>error\<close> field of a failed \<open>ApiResponse\<close>. The constructors in capitals are the
  entries of \<open>ERROR_MESSAGES\<close>; the others are the messages written in place in the
  services:
  \<^item> \<open>ListNotFound\<close>: 'Lista nie zostala znaleziona';
  \<^item> \<open>EditForbidden\<close>: 'Brak uprawnien do edycji tej listy';
  \<^item> \<open>OnlyOwnerDelete\<close>: 'Tylko wlasciciel moze usunac liste';
  \<^item> \<open>OnlyOwnerShare\<close>: 'Tylko wlasciciel moze udostepnic liste';
  \<^item> \<open>SelfShare\<close>: 'Nie mozesz udostepnic listy samemu sobie';
  \<^item> \<open>AlreadyShared\<close>: 'Lista jest juz udostepniona temu uzytkownikowi';
  \<^item> \<open>TaskNotFound\<close>: 'Zadanie nie zostalo znalezione';
  \<^item> \<open>ListLimit\<close>: 'Osiagnieto maksymalna liczbe list (50)';
  \<^item> \<open>LockedOut\<close>: 'Konto zostalo zablokowane na 15 minut ...'.
\<close>

datatype error =
    REQUIRED_FIELD | INVALID_EMAIL | PASSWORD_TOO_SHORT | PASSWORD_TOO_LONG
  | USER_NOT_FOUND | INVALID_CREDENTIALS
  | LIST_TITLE_REQUIRED | LIST_TITLE_TOO_LONG | TASK_TEXT_REQUIRED | TASK_TEXT_TOO_LONG
  | MAX_TASKS_EXCEEDED | MAX_SHARED_USERS_EXCEEDED | STORAGE_ERROR | UNKNOWN_ERROR
  | ListNotFound | EditForbidden | OnlyOwnerDelete | OnlyOwnerShare | SelfShare
  | AlreadyShared | TaskNotFound | ListLimit | LockedOut

text \<open>The permission errors: the three messages that refuse an action to its caller.\<close>

definition isPermissionError :: "error \<Rightarrow> bool" where
  "isPermissionError e = (e = EditForbidden \<or> e = OnlyOwnerDelete \<or> e = OnlyOwnerShare)"

text \<open>White space of \<open>String.prototype.trim\<close> and of the regular expression class \<open>\s\<close>.\<close>

definition isSpace :: "char \<Rightarrow> bool" where
  "isSpace c = (c = CHR 0x09 \<or> c = CHR 0x0A \<or> c = CHR 0x0B \<or> c = CHR 0x0C \<or> c = CHR 0x0D
                \<or> c = CHR 0x20 \<or> c = CHR 0xA0)"

definition trim :: "string \<Rightarrow> string" where
  "trim s = rev (dropWhile isSpace (rev (dropWhile isSpace s)))"

text \<open>\<open>String.prototype.toLowerCase\<close> on the code units below 256.\<close>

definition lowerChar :: "char \<Rightarrow> char" where
  "lowerChar c =
     (let n = (of_char c :: nat)
      in if (65 \<le> n \<and> n \<le> 90) \<or> (192 \<le> n \<and> n \<le> 222 \<and> n \<noteq> 215) then char_of (n + 32) else c)"

definition toLowerCase :: "string \<Rightarrow> string" where
  "toLowerCase s = map lowerChar s"

text \<open>\<open>s.includes(t)\<close>: \<open>t\<close> occurs in \<open>s\<close> as a contiguous run.\<close>

fun str_includes :: "string \<Rightarrow> string \<Rightarrow> bool" where
  "str_includes [] t = (t = [])"
| "str_includes (c # s) t = (prefix t (c # s) \<or> str_includes s t)"

text \<open>The comparison \<open><\<close> of two JavaScript strings: lexicographic on the code units.\<close>

fun strLess :: "string \<Rightarrow> string \<Rightarrow> bool" where
  "strLess [] [] = False"
| "strLess [] (y # ys) = True"
| "strLess (x # xs) [] = False"
| "strLess (x # xs) (y # ys) =
     ((of_char x :: nat) < of_char y \<or> (x = y \<and> strLess xs ys))"

text \<open>
  \<open>isValidEmail\<close>: the expression \<open>/^[^\s@]+@[^\s@]+\.[^\s@]+$/\<close> and the length bound.
  A match has one \<open>@\<close>, no white space, a non-empty part before the \<open>@\<close>, and after it a
  dot that is neither the first nor the last character.
\<close>

definition emailRegex :: "string \<Rightarrow> bool" where
  "emailRegex s =
     (let localPart = takeWhile (\<lambda>c. c \<noteq> CHR ''@'') s;
          rest = dropWhile (\<lambda>c. c \<noteq> CHR ''@'') s
      in localPart \<noteq> [] \<and> \<not> list_ex isSpace localPart \<and> rest \<noteq> []
         \<and> \<not> list_ex (\<lambda>c. isSpace c \<or> c = CHR ''@'') (tl rest)
         \<and> list_ex (\<lambda>c. c = CHR ''.'') (butlast (tl (tl rest))))"

definition isValidEmail :: "string \<Rightarrow> bool" where
  "isValidEmail e = (emailRegex e \<and> length e \<le> MAX_EMAIL_LENGTH)"

definition isValidPassword :: "string \<Rightarrow> bool" where
  "isValidPassword p = (length p \<ge> MIN_PASSWORD_LENGTH \<and> length p \<le> MAX_PASSWORD_LENGTH)"

definition isValidListTitle :: "string \<Rightarrow> bool" where
  "isValidListTitle t =
     (length (trim t) \<ge> MIN_LIST_TITLE_LENGTH \<and> length (trim t) \<le> MAX_LIST_TITLE_LENGTH)"

definition isValidTaskText :: "string \<Rightarrow> bool" where
  "isValidTaskText t =
     (length (trim t) \<ge> MIN_TASK_TEXT_LENGTH \<and> length (trim t) \<le> MAX_TASK_TEXT_LENGTH)"

text \<open>The field validators: \<open>None\<close> is \<open>undefined\<close> (no error).\<close>

definition validators_email :: "string \<Rightarrow> error option" where
  "validators_email e =
     (if trim e = [] then Some REQUIRED_FIELD
      else if \<not> isValidEmail e then Some INVALID_EMAIL
      else None)"

definition validators_password :: "string \<Rightarrow> error option" where
  "validators_password p =
     (if p = [] then Some REQUIRED_FIELD
      else if \<not> isValidPassword p then
        (if length p < MIN_PASSWORD_LENGTH then Some PASSWORD_TOO_SHORT
         else if length p > MAX_PASSWORD_LENGTH then Some PASSWORD_TOO_LONG
         else None)
      else None)"

definition validators_listTitle :: "string \<Rightarrow> error option" where
  "validators_listTitle t =
     (if trim t = [] then Some LIST_TITLE_REQUIRED
      else if \<not> isValidListTitle t then Some LIST_TITLE_TOO_LONG
      else None)"

definition validators_taskText :: "string \<Rightarrow> error option" where
  "validators_taskText t =
     (if trim t = [] then Some TASK_TEXT_REQUIRED
      else if \<not> isValidTaskText t then Some TASK_TEXT_TOO_LONG
      else None)"

text \<open>
  The validation schemas return their \<open>errorList\<close> (the messages, in the order they are
  pushed); \<open>isValid\<close> is \<open>errorList.length === 0\<close>.
\<close>

definition errs :: "error option \<Rightarrow> error list" where
  "errs r = (case r of None \<Rightarrow> [] | Some e \<Rightarrow> [e])"

definition validationSchemas_login :: "string \<Rightarrow> string \<Rightarrow> error list" where
  "validationSchemas_login e p = errs (validators_email e) @ errs (validators_password p)"

definition validationSchemas_createList :: "string \<Rightarrow> string list \<Rightarrow> error list" where
  "validationSchemas_createList t ts =
     errs (validators_listTitle t)
     @ (if length ts > MAX_TASKS_PER_LIST then [MAX_TASKS_EXCEEDED] else [])
     @ concat (map (\<lambda>task. if trim task \<noteq> [] then errs (validators_taskText task) else []) ts)"

definition validationSchemas_addTask :: "string \<Rightarrow> error list" where
  "validationSchemas_addTask t = errs (validators_taskText t)"

definition validationSchemas_shareList :: "string \<Rightarrow> error list" where
  "validationSchemas_shareList e = errs (validators_email e)"

section \<open>Data model (types/index.ts, types/lists.ts)\<close>

text \<open>
  The interfaces as records. Field names are global in a theory, so the fields \<open>id\<close>,
  \<open>text\<close> and \<open>createdAt\<close> that several interfaces share carry the name of their
  interface (\<open>userId\<close>, \<open>taskId\<close>, \<open>listId\<close>, \<open>taskText\<close>, \<open>taskCreatedAt\<close>,
  \<open>userCreatedAt\<close>), as do the fields of the payloads; \<open>List\<close> is \<open>ListT\<close>. An optional
  property is an option.
\<close>

record User =
  userId :: string
  email :: string
  password :: string
  name :: string
  userCreatedAt :: "timestamp option"

record Task =
  taskId :: string
  taskText :: string
  completed :: bool
  taskCreatedAt :: "timestamp option"
  completedAt :: "timestamp option"

record ListT =
  listId :: string
  title :: string
  ownerId :: string
  sharedWith :: "string list"
  tasks :: "Task list"
  createdAt :: timestamp
  updatedAt :: "timestamp option"

text \<open>
  The counts are JavaScript numbers: the reducer subtracts from them without a floor, so
  they are integers here. \<open>completionPercentage\<close> is the quotient \<open>(c / t) * 100\<close>; it is
  kept exact (a rational), which agrees with the source wherever two such quotients of the
  same operands are compared.
\<close>

record ListStatistics =
  totalTasks :: int
  completedTasks :: int
  pendingTasks :: int
  completionPercentage :: rat
  lastActivity :: timestamp

record ListWithStats = ListT +
  statistics :: ListStatistics
  isOwner :: bool
  isShared :: bool
  canEdit :: bool
  canDelete :: bool
  canShare :: bool

datatype SortKey = ByTitle | ByCreatedAt | ByUpdatedAt | ByCompletionPercentage
datatype SortOrder = Asc | Desc

record ListFilter =
  searchTerm :: "string option"
  showCompleted :: "bool option"
  showShared :: "bool option"
  showOwned :: "bool option"
  sortBy :: "SortKey option"
  sortOrder :: "SortOrder option"

record CreateListPayload =
  newTitle :: string
  initialTasks :: "string list option"

record UpdateListPayload =
  updTitle :: "string option"
  updSharedWith :: "string list option"

record ShareListPayload =
  shareListId :: string
  userEmail :: string

record CreateTaskPayload =
  newText :: string
  targetListId :: string

record UpdateTaskPayload =
  updText :: "string option"
  updCompleted :: "bool option"

text \<open>\<open>MOCK_USERS\<close> as the module declares it; \<open>signUp\<close> appends to it, so every
  operation below takes the current directory as its argument \<open>users\<close>.\<close>

definition MOCK_USERS :: "User list" where
  "MOCK_USERS =
     [\<lparr>userId = ''1'', email = ''user@example.com'', password = ''password123'',
       name = ''Jan Kowalski'', userCreatedAt = Some 1704067200000\<rparr>,
      \<lparr>userId = ''2'', email = ''anna@example.com'', password = ''password123'',
       name = ''Anna Nowak'', userCreatedAt = Some 1704067200000\<rparr>,
      \<lparr>userId = ''3'', email = ''test@example.com'', password = ''password123'',
       name = ''Test User'', userCreatedAt = Some 1704067200000\<rparr>]"

section \<open>The list service (services/listService.ts)\<close>

text \<open>
  The state of the service: the part of the device storage that holds list collections
  (one key per user, \<open>LISTS_PREFIX\<close> followed by the user id) and the cache of the
  singleton. The storage is taken to be reliable: \<open>storage.setItem\<close> catches its own
  failures and \<open>saveUserLists\<close> ignores its result, so \<open>saveUserLists\<close> returns
  \<open>true\<close> on every path and the \<open>STORAGE_ERROR\<close> branches that test it are never taken.
\<close>

record ServiceState =
  store :: "string \<rightharpoonup> ListT list"
  cache :: "string \<rightharpoonup> ListWithStats list"

definition getUserListsKey :: "string \<Rightarrow> string" where
  "getUserListsKey uid = LISTS_PREFIX @ uid"

text \<open>\<open>(await storage.getItem(key)) || []\<close>\<close>

definition getListsOrEmpty :: "ServiceState \<Rightarrow> string \<Rightarrow> ListT list" where
  "getListsOrEmpty st uid = (case store st (getUserListsKey uid) of None \<Rightarrow> [] | Some ls \<Rightarrow> ls)"

definition calculateStatistics :: "'a ListT_scheme \<Rightarrow> ListStatistics" where
  "calculateStatistics list =
     (let total = int (length (tasks list));
          done = int (length (filter completed (tasks list)));
          pending = total - done;
          percentage = (if total > 0 then (of_int done / of_int total) * 100 else 0)
      in \<lparr>totalTasks = total, completedTasks = done, pendingTasks = pending,
          completionPercentage = percentage,
          lastActivity = (case updatedAt list of Some u \<Rightarrow> u | None \<Rightarrow> createdAt list)\<rparr>)"

text \<open>\<open>MOCK_USERS.find(...)?.email || null\<close>: an empty email is falsy, hence \<open>null\<close>.\<close>

definition getCurrentUserEmail :: "User list \<Rightarrow> string \<Rightarrow> string option" where
  "getCurrentUserEmail users uid =
     (case find (\<lambda>u. userId u = uid) users of
        None \<Rightarrow> None
      | Some u \<Rightarrow> if email u = [] then None else Some (email u))"

definition canUserEditList :: "User list \<Rightarrow> 'a ListT_scheme \<Rightarrow> string \<Rightarrow> bool" where
  "canUserEditList users list uid =
     (if ownerId list = uid then True
      else case getCurrentUserEmail users uid of
             Some e \<Rightarrow> e \<in> set (sharedWith list)
           | None \<Rightarrow> False)"

text \<open>\<open>Array.prototype.findIndex\<close>; \<open>None\<close> is the result -1.\<close>

fun findIndex :: "('a \<Rightarrow> bool) \<Rightarrow> 'a list \<Rightarrow> nat option" where
  "findIndex P [] = None"
| "findIndex P (x # xs) = (if P x then Some 0 else map_option Suc (findIndex P xs))"

record FoundList =
  foundList :: ListT
  foundOwnerId :: string
  listIndex :: nat
  ownerLists :: "ListT list"

text \<open>The loop of \<open>findListById\<close> over the other users, in the order of the directory.
  The test \<open>if (list)\<close> on the element at a found index always succeeds.\<close>

fun searchSharedLists ::
  "ServiceState \<Rightarrow> string \<Rightarrow> string \<Rightarrow> string \<Rightarrow> User list \<Rightarrow> FoundList option" where
  "searchSharedLists st uid lid currentUserEmail [] = None"
| "searchSharedLists st uid lid currentUserEmail (user # rest) =
     (if userId user \<noteq> uid then
        (let userLists = getListsOrEmpty st (userId user)
         in case findIndex (\<lambda>l. listId l = lid \<and> currentUserEmail \<in> set (sharedWith l)) userLists of
              Some i \<Rightarrow> Some \<lparr>foundList = userLists ! i, foundOwnerId = userId user,
                              listIndex = i, ownerLists = userLists\<rparr>
            | None \<Rightarrow> searchSharedLists st uid lid currentUserEmail rest)
      else searchSharedLists st uid lid currentUserEmail rest)"

definition findListById :: "User list \<Rightarrow> ServiceState \<Rightarrow> string \<Rightarrow> string \<Rightarrow> FoundList option" where
  "findListById users st uid lid =
     (let currentUserLists = getListsOrEmpty st uid
      in case findIndex (\<lambda>l. listId l = lid) currentUserLists of
           Some i \<Rightarrow> Some \<lparr>foundList = currentUserLists ! i, foundOwnerId = uid,
                           listIndex = i, ownerLists = currentUserLists\<rparr>
         | None \<Rightarrow>
             (case getCurrentUserEmail users uid of
                None \<Rightarrow> None
              | Some currentUserEmail \<Rightarrow> searchSharedLists st uid lid currentUserEmail users))"

definition enrichList :: "User list \<Rightarrow> ListT \<Rightarrow> string \<Rightarrow> ListWithStats" where
  "enrichList users list currentUserId =
     (let owner = (ownerId list = currentUserId);
          isSharedWithCurrentUser =
            (case getCurrentUserEmail users currentUserId of
               Some e \<Rightarrow> e \<in> set (sharedWith list)
             | None \<Rightarrow> False)
      in ListT.extend list
           \<lparr>statistics = calculateStatistics list, isOwner = owner,
            isShared = (length (sharedWith list) > 0),
            canEdit = (owner \<or> isSharedWithCurrentUser), canDelete = owner, canShare = owner\<rparr>)"

text \<open>
  \<open>filterLists\<close>. A flag of the filter is truthy when it is present and \<open>true\<close>.
  \<open>Array.prototype.sort\<close> is stable; it is modelled as an insertion sort driven by the
  comparator of the source (negative: first argument first).
\<close>

definition truthy :: "bool option \<Rightarrow> bool" where
  "truthy b = (b = Some True)"

datatype SortValue = StrValue string | NumValue rat

fun valueLess :: "SortValue \<Rightarrow> SortValue \<Rightarrow> bool" where
  "valueLess (StrValue a) (StrValue b) = strLess a b"
| "valueLess (NumValue a) (NumValue b) = (a < b)"
| "valueLess _ _ = False"

definition sortValue :: "SortKey \<Rightarrow> ListWithStats \<Rightarrow> SortValue" where
  "sortValue k l =
     (case k of
        ByTitle \<Rightarrow> StrValue (toLowerCase (title l))
      | ByCreatedAt \<Rightarrow> NumValue (of_nat (createdAt l))
      | ByUpdatedAt \<Rightarrow> NumValue (of_nat (case updatedAt l of Some u \<Rightarrow> u | None \<Rightarrow> createdAt l))
      | ByCompletionPercentage \<Rightarrow> NumValue (completionPercentage (statistics l)))"

definition compareLists :: "SortKey \<Rightarrow> SortOrder option \<Rightarrow> ListWithStats \<Rightarrow> ListWithStats \<Rightarrow> int" where
  "compareLists k ord a b =
     (let aValue = sortValue k a; bValue = sortValue k b
      in if valueLess aValue bValue then (if ord = Some Desc then 1 else -1)
         else if valueLess bValue aValue then (if ord = Some Desc then -1 else 1)
         else 0)"

fun insertBy :: "('a \<Rightarrow> 'a \<Rightarrow> int) \<Rightarrow> 'a \<Rightarrow> 'a list \<Rightarrow> 'a list" where
  "insertBy cmp x [] = [x]"
| "insertBy cmp x (y # ys) = (if cmp x y \<le> 0 then x # y # ys else y # insertBy cmp x ys)"

definition stableSort :: "('a \<Rightarrow> 'a \<Rightarrow> int) \<Rightarrow> 'a list \<Rightarrow> 'a list" where
  "stableSort cmp xs = foldr (insertBy cmp) xs []"

definition filterLists :: "ListWithStats list \<Rightarrow> ListFilter \<Rightarrow> ListWithStats list" where
  "filterLists lsts flt =
     (let f1 = (case searchTerm flt of
                  None \<Rightarrow> lsts
                | Some s \<Rightarrow>
                    if trim s = [] then lsts
                    else (let term = trim (toLowerCase s)
                          in filter (\<lambda>l. str_includes (toLowerCase (title l)) term
                                        \<or> list_ex (\<lambda>t. str_includes (toLowerCase (taskText t)) term) (tasks l))
                                    lsts));
          f2 = (if showOwned flt \<noteq> None \<or> showShared flt \<noteq> None then
                  filter (\<lambda>l. if truthy (showOwned flt) \<and> truthy (showShared flt) then True
                               else if truthy (showOwned flt) \<and> \<not> truthy (showShared flt) then isOwner l
                               else if \<not> truthy (showOwned flt) \<and> truthy (showShared flt) then isShared l
                               else False) f1
                else f1);
          f3 = (if showCompleted flt = Some False then
                  filter (\<lambda>l. completionPercentage (statistics l) < 100) f2
                else f2)
      in case sortBy flt of
           None \<Rightarrow> f3
         | Some k \<Rightarrow> stableSort (compareLists k (sortOrder flt)) f3)"

text \<open>
  \<open>clearCache(userId)\<close> deletes every key that starts with \<open>userId\<close>; with an empty
  \<open>userId\<close> it clears the cache, which is the same thing.
\<close>

definition clearCache :: "string \<Rightarrow> ServiceState \<Rightarrow> ServiceState" where
  "clearCache uid st = st\<lparr>cache := (\<lambda>k. if prefix uid k then None else cache st k)\<rparr>"

text \<open>The emails are collected in a set and each known user among them has the cache
  cleared; the order of the clearings does not matter.\<close>

definition clearCacheForSharedListUsers :: "User list \<Rightarrow> ListT list \<Rightarrow> ServiceState \<Rightarrow> ServiceState" where
  "clearCacheForSharedListUsers users lsts st =
     fold (\<lambda>e s. case find (\<lambda>u. email u = e) users of
                    Some u \<Rightarrow> clearCache (userId u) s
                  | None \<Rightarrow> s)
          (remdups (concat (map sharedWith lsts))) st"

definition saveUserLists :: "User list \<Rightarrow> string \<Rightarrow> ListT list \<Rightarrow> ServiceState \<Rightarrow> ServiceState" where
  "saveUserLists users uid lsts st =
     clearCacheForSharedListUsers users lsts
       (clearCache uid (st\<lparr>store := (store st)(getUserListsKey uid \<mapsto> lsts)\<rparr>))"

text \<open>
  The two lists that \<open>loadUserLists\<close> writes for a user without a stored collection. The
  titles and texts are the Polish ones of the source without their diacritics.
\<close>

definition sampleLists :: "(nat \<Rightarrow> string) \<Rightarrow> timestamp \<Rightarrow> string \<Rightarrow> ListT list" where
  "sampleLists gen now uid =
     [\<lparr>listId = gen 0, title = ''Zakupy spozywcze'', ownerId = uid, sharedWith = [],
       tasks = [\<lparr>taskId = gen 1, taskText = ''Mleko'', completed = False,
                  taskCreatedAt = None, completedAt = None\<rparr>,
                \<lparr>taskId = gen 2, taskText = ''Chleb'', completed = True,
                  taskCreatedAt = None, completedAt = None\<rparr>,
                \<lparr>taskId = gen 3, taskText = ''Jajka'', completed = False,
                  taskCreatedAt = None, completedAt = None\<rparr>,
                \<lparr>taskId = gen 4, taskText = ''Maslo'', completed = False,
                  taskCreatedAt = None, completedAt = None\<rparr>],
       createdAt = now, updatedAt = None\<rparr>,
      \<lparr>listId = gen 5, title = ''Zadania do wykonania'', ownerId = uid,
       sharedWith = [''anna@example.com''],
       tasks = [\<lparr>taskId = gen 6, taskText = ''Przygotowac prezentacje'', completed = False,
                  taskCreatedAt = None, completedAt = None\<rparr>,
                \<lparr>taskId = gen 7, taskText = ''Zadzwonic do klienta'', completed = True,
                  taskCreatedAt = None, completedAt = None\<rparr>,
                \<lparr>taskId = gen 8, taskText = ''Wyslac raport'', completed = False,
                  taskCreatedAt = None, completedAt = None\<rparr>],
       createdAt = now, updatedAt = None\<rparr>]"

text \<open>
  \<open>loadUserLists\<close>. The cache key is the user id, an underscore and
  \<open>JSON.stringify(filter)\<close>; the latter depends on the order in which the properties of
  the filter object were set, which the record does not carry, so the serialisation is the
  argument \<open>stringify\<close>.
\<close>

text \<open>The lists of the other users that are shared with the email of \<open>uid\<close> (the loop
  of \<open>loadUserLists\<close> over the directory).\<close>

definition sharedWithUser :: "User list \<Rightarrow> ServiceState \<Rightarrow> string \<Rightarrow> ListT list" where
  "sharedWithUser users st uid =
     (case find (\<lambda>u. userId u = uid) users of
        None \<Rightarrow> []
      | Some me \<Rightarrow>
          if email me = [] then []
          else concat (map (\<lambda>user.
                 if userId user \<noteq> uid then
                   (case store st (getUserListsKey (userId user)) of
                      Some userLists \<Rightarrow> filter (\<lambda>l. email me \<in> set (sharedWith l)) userLists
                    | None \<Rightarrow> [])
                 else []) users))"

definition loadUserLists ::
  "(ListFilter \<Rightarrow> string) \<Rightarrow> User list \<Rightarrow> (nat \<Rightarrow> string) \<Rightarrow> timestamp \<Rightarrow> ServiceState
     \<Rightarrow> string \<Rightarrow> ListFilter \<Rightarrow> (error + ListWithStats list) \<times> ServiceState" where
  "loadUserLists stringify users gen now st uid flt =
     (let cacheKey = uid @ ''_'' @ stringify flt
      in case cache st cacheKey of
           Some cached \<Rightarrow> (Inr cached, st)
         | None \<Rightarrow>
             (let listsKey = getUserListsKey uid;
                  (allLists, st1) =
                     (case store st listsKey of
                        None \<Rightarrow> (sampleLists gen now uid,
                                  st\<lparr>store := (store st)(listsKey \<mapsto> sampleLists gen now uid)\<rparr>)
                      | Some storedLists \<Rightarrow> (storedLists, st));
                  sharedLists = sharedWithUser users st1 uid;
                  combinedLists = allLists @ sharedLists;
                  enrichedLists = map (\<lambda>l. enrichList users l uid) combinedLists;
                  filteredLists = filterLists enrichedLists flt
              in (Inr filteredLists, st1\<lparr>cache := (cache st1)(cacheKey \<mapsto> filteredLists)\<rparr>)))"

text \<open>
  The operations. Each returns the \<open>ApiResponse\<close> (\<open>Inl\<close> the error of a failure,
  \<open>Inr\<close> the data of a success) and the state after the call. The \<open>catch\<close> blocks
  guard against exceptions of the storage layer, which the model does not raise.
\<close>

definition createList ::
  "User list \<Rightarrow> (nat \<Rightarrow> string) \<Rightarrow> timestamp \<Rightarrow> ServiceState \<Rightarrow> string \<Rightarrow> CreateListPayload
     \<Rightarrow> (error + ListWithStats) \<times> ServiceState" where
  "createList users gen now st uid payload =
     (let texts = (case initialTasks payload of None \<Rightarrow> [] | Some ts \<Rightarrow> ts)
      in case validationSchemas_createList (newTitle payload) texts of
           e # _ \<Rightarrow> (Inl e, st)
         | [] \<Rightarrow>
             (let currentLists = getListsOrEmpty st uid
              in if length currentLists \<ge> 50 then (Inl ListLimit, st)
                 else
                   (let newList =
                          \<lparr>listId = gen 0, title = trim (newTitle payload), ownerId = uid,
                           sharedWith = [],
                           tasks = map (\<lambda>(i, t). \<lparr>taskId = gen (Suc i), taskText = trim t,
                                                    completed = False, taskCreatedAt = Some now,
                                                    completedAt = None\<rparr>)
                                       (enumerate 0 texts),
                           createdAt = now, updatedAt = None\<rparr>;
                        updatedLists = newList # currentLists
                    in (Inr (enrichList users newList uid),
                        saveUserLists users uid updatedLists st))))"

definition updateList ::
  "User list \<Rightarrow> timestamp \<Rightarrow> ServiceState \<Rightarrow> string \<Rightarrow> string \<Rightarrow> UpdateListPayload
     \<Rightarrow> (error + ListWithStats) \<times> ServiceState" where
  "updateList users now st uid lid updates =
     (case findListById users st uid lid of
        None \<Rightarrow> (Inl ListNotFound, st)
      | Some listData \<Rightarrow>
          (let list = foundList listData
           in if \<not> canUserEditList users list uid then (Inl EditForbidden, st)
              else
                (case (case updTitle updates of None \<Rightarrow> None | Some t \<Rightarrow> validators_listTitle t) of
                   Some titleError \<Rightarrow> (Inl titleError, st)
                 | None \<Rightarrow>
                     (let updatedList = list
                            \<lparr>title := (case updTitle updates of
                                         None \<Rightarrow> title list
                                       | Some t \<Rightarrow> if trim t = [] then title list else trim t),
                             sharedWith := (case updSharedWith updates of
                                              Some sw \<Rightarrow> sw
                                            | None \<Rightarrow> sharedWith list),
                             updatedAt := Some now\<rparr>
                      in (Inr (enrichList users updatedList uid),
                          saveUserLists users (foundOwnerId listData)
                            ((ownerLists listData)[listIndex listData := updatedList]) st)))))"

definition deleteList ::
  "User list \<Rightarrow> ServiceState \<Rightarrow> string \<Rightarrow> string \<Rightarrow> (error + unit) \<times> ServiceState" where
  "deleteList users st uid lid =
     (let currentLists = getListsOrEmpty st uid
      in case find (\<lambda>l. listId l = lid) currentLists of
           None \<Rightarrow> (Inl ListNotFound, st)
         | Some list \<Rightarrow>
             if ownerId list \<noteq> uid then (Inl OnlyOwnerDelete, st)
             else
               (let updatedLists = filter (\<lambda>l. listId l \<noteq> lid) currentLists
                in (Inr (), saveUserLists users uid updatedLists st)))"

definition shareList ::
  "User list \<Rightarrow> timestamp \<Rightarrow> ServiceState \<Rightarrow> string \<Rightarrow> ShareListPayload
     \<Rightarrow> (error + unit) \<times> ServiceState" where
  "shareList users now st uid payload =
     (case validationSchemas_shareList (userEmail payload) of
        e # _ \<Rightarrow> (Inl e, st)
      | [] \<Rightarrow>
          (case find (\<lambda>u. email u = userEmail payload) users of
             None \<Rightarrow> (Inl USER_NOT_FOUND, st)
           | Some targetUser \<Rightarrow>
               if userId targetUser = uid then (Inl SelfShare, st)
               else
                 (let currentLists = getListsOrEmpty st uid
                  in case findIndex (\<lambda>l. listId l = shareListId payload) currentLists of
                       None \<Rightarrow> (Inl ListNotFound, st)
                     | Some i \<Rightarrow>
                         (let list = currentLists ! i
                          in if ownerId list \<noteq> uid then (Inl OnlyOwnerShare, st)
                             else if userEmail payload \<in> set (sharedWith list)
                               then (Inl AlreadyShared, st)
                             else if length (sharedWith list) \<ge> MAX_SHARED_USERS
                               then (Inl MAX_SHARED_USERS_EXCEEDED, st)
                             else
                               (let updatedList = list
                                      \<lparr>sharedWith := sharedWith list @ [userEmail payload],
                                       updatedAt := Some now\<rparr>
                                in (Inr (),
                                    clearCache (userId targetUser)
                                      (saveUserLists users uid
                                         (currentLists[i := updatedList]) st)))))))"

definition addTask ::
  "User list \<Rightarrow> string \<Rightarrow> timestamp \<Rightarrow> ServiceState \<Rightarrow> string \<Rightarrow> CreateTaskPayload
     \<Rightarrow> (error + Task) \<times> ServiceState" where
  "addTask users newId now st uid payload =
     (case validationSchemas_addTask (newText payload) of
        e # _ \<Rightarrow> (Inl e, st)
      | [] \<Rightarrow>
          (case findListById users st uid (targetListId payload) of
             None \<Rightarrow> (Inl ListNotFound, st)
           | Some listData \<Rightarrow>
               (let list = foundList listData
                in if \<not> canUserEditList users list uid then (Inl EditForbidden, st)
                   else if length (tasks list) \<ge> MAX_TASKS_PER_LIST
                     then (Inl MAX_TASKS_EXCEEDED, st)
                   else
                     (let newTask = \<lparr>taskId = newId, taskText = trim (newText payload),
                                     completed = False, taskCreatedAt = Some now,
                                     completedAt = None\<rparr>;
                          updatedList = list\<lparr>tasks := tasks list @ [newTask],
                                             updatedAt := Some now\<rparr>
                      in (Inr newTask,
                          saveUserLists users (foundOwnerId listData)
                            ((ownerLists listData)[listIndex listData := updatedList]) st)))))"

definition updateTask ::
  "User list \<Rightarrow> timestamp \<Rightarrow> ServiceState \<Rightarrow> string \<Rightarrow> string \<Rightarrow> string \<Rightarrow> UpdateTaskPayload
     \<Rightarrow> (error + Task) \<times> ServiceState" where
  "updateTask users now st uid lid tid updates =
     (case findListById users st uid lid of
        None \<Rightarrow> (Inl ListNotFound, st)
      | Some listData \<Rightarrow>
          (let list = foundList listData
           in if \<not> canUserEditList users list uid then (Inl EditForbidden, st)
              else
                (case findIndex (\<lambda>t. taskId t = tid) (tasks list) of
                   None \<Rightarrow> (Inl TaskNotFound, st)
                 | Some taskIndex \<Rightarrow>
                     (case (case updText updates of None \<Rightarrow> None | Some t \<Rightarrow> validators_taskText t) of
                        Some textError \<Rightarrow> (Inl textError, st)
                      | None \<Rightarrow>
                          (let task = tasks list ! taskIndex;
                               updatedTask = task
                                 \<lparr>taskText := (case updText updates of
                                                 None \<Rightarrow> taskText task
                                               | Some t \<Rightarrow> if trim t = [] then taskText task else trim t),
                                  completed := (case updCompleted updates of
                                                  Some c \<Rightarrow> c
                                                | None \<Rightarrow> completed task),
                                  completedAt := (if updCompleted updates = Some True \<and> \<not> completed task
                                                  then Some now else completedAt task)\<rparr>;
                               updatedList = list\<lparr>tasks := (tasks list)[taskIndex := updatedTask],
                                                  updatedAt := Some now\<rparr>
                           in (Inr updatedTask,
                               saveUserLists users (foundOwnerId listData)
                                 ((ownerLists listData)[listIndex listData := updatedList]) st))))))"

definition deleteTask ::
  "User list \<Rightarrow> timestamp \<Rightarrow> ServiceState \<Rightarrow> string \<Rightarrow> string \<Rightarrow> string
     \<Rightarrow> (error + unit) \<times> ServiceState" where
  "deleteTask users now st uid lid tid =
     (case findListById users st uid lid of
        None \<Rightarrow> (Inl ListNotFound, st)
      | Some listData \<Rightarrow>
          (let list = foundList listData
           in if \<not> canUserEditList users list uid then (Inl EditForbidden, st)
              else if \<not> list_ex (\<lambda>t. taskId t = tid) (tasks list) then (Inl TaskNotFound, st)
              else
                (let updatedList = list\<lparr>tasks := filter (\<lambda>t. taskId t \<noteq> tid) (tasks list),
                                        updatedAt := Some now\<rparr>
                 in (Inr (),
                     saveUserLists users (foundOwnerId listData)
                       ((ownerLists listData)[listIndex listData := updatedList]) st))))"

definition toggleTask ::
  "User list \<Rightarrow> timestamp \<Rightarrow> ServiceState \<Rightarrow> string \<Rightarrow> string \<Rightarrow> string
     \<Rightarrow> (error + Task) \<times> ServiceState" where
  "toggleTask users now st uid lid tid =
     (case findListById users st uid lid of
        None \<Rightarrow> (Inl ListNotFound, st)
      | Some listData \<Rightarrow>
          (let list = foundList listData
           in if \<not> canUserEditList users list uid then (Inl EditForbidden, st)
              else
                (case findIndex (\<lambda>t. taskId t = tid) (tasks list) of
                   None \<Rightarrow> (Inl TaskNotFound, st)
                 | Some taskIndex \<Rightarrow>
                     (let task = tasks list ! taskIndex;
                          updatedTask = task
                            \<lparr>completed := \<not> completed task,
                             completedAt := (if \<not> completed task then Some now else None)\<rparr>;
                          updatedList = list\<lparr>tasks := (tasks list)[taskIndex := updatedTask],
                                             updatedAt := Some now\<rparr>
                      in (Inr updatedTask,
                          saveUserLists users (foundOwnerId listData)
                            ((ownerLists listData)[listIndex listData := updatedList]) st)))))"

section \<open>The list reducer (context/listReducer.ts)\<close>

record ListState =
  stateLists :: "ListWithStats list"
  loading :: bool
  stateError :: "string option"
  stateFilter :: ListFilter
  selectedListId :: "string option"
  lastSync :: "timestamp option"

text \<open>
  \<open>Partial<Task>\<close> and \<open>Partial<ListWithStats>\<close>: a property that is absent is \<open>None\<close>.
  For the two optional properties of a task the inner option is the value, which may be
  \<open>undefined\<close>, as in the task that \<open>toggleTask\<close> returns.
\<close>

record TaskUpdates =
  setTaskId :: "string option"
  setTaskText :: "string option"
  setCompleted :: "bool option"
  setTaskCreatedAt :: "timestamp option option"
  setCompletedAt :: "timestamp option option"

record ListUpdates =
  setListId :: "string option"
  setTitle :: "string option"
  setOwnerId :: "string option"
  setSharedWith :: "string list option"
  setTasks :: "Task list option"
  setCreatedAt :: "timestamp option"
  setUpdatedAt :: "timestamp option option"
  setStatistics :: "ListStatistics option"
  setIsOwner :: "bool option"
  setIsShared :: "bool option"
  setCanEdit :: "bool option"
  setCanDelete :: "bool option"
  setCanShare :: "bool option"

datatype ListAction =
    SET_LOADING bool
  | SET_ERROR "string option"
  | CLEAR_ERROR
  | SET_LISTS "ListWithStats list"
  | ADD_LIST ListWithStats
  | UPDATE_LIST string ListUpdates
  | DELETE_LIST string
  | ADD_TASK string Task
  | UPDATE_TASK string string TaskUpdates
  | DELETE_TASK string string
  | SET_FILTER ListFilter
  | SET_SELECTED_LIST "string option"
  | SET_LAST_SYNC timestamp

definition orElse :: "'a option \<Rightarrow> 'a \<Rightarrow> 'a" where
  "orElse u v = (case u of Some x \<Rightarrow> x | None \<Rightarrow> v)"

text \<open>The spreads \<open>{ ...task, ...updates }\<close>, \<open>{ ...list, ...updates }\<close> and
  \<open>{ ...state.filter, ...payload }\<close>.\<close>

definition mergeTask :: "Task \<Rightarrow> TaskUpdates \<Rightarrow> Task" where
  "mergeTask t u =
     \<lparr>taskId = orElse (setTaskId u) (taskId t), taskText = orElse (setTaskText u) (taskText t),
      completed = orElse (setCompleted u) (completed t),
      taskCreatedAt = orElse (setTaskCreatedAt u) (taskCreatedAt t),
      completedAt = orElse (setCompletedAt u) (completedAt t)\<rparr>"

definition mergeList :: "ListWithStats \<Rightarrow> ListUpdates \<Rightarrow> ListWithStats" where
  "mergeList l u =
     \<lparr>listId = orElse (setListId u) (listId l), title = orElse (setTitle u) (title l),
      ownerId = orElse (setOwnerId u) (ownerId l),
      sharedWith = orElse (setSharedWith u) (sharedWith l),
      tasks = orElse (setTasks u) (tasks l), createdAt = orElse (setCreatedAt u) (createdAt l),
      updatedAt = orElse (setUpdatedAt u) (updatedAt l),
      statistics = orElse (setStatistics u) (statistics l),
      isOwner = orElse (setIsOwner u) (isOwner l), isShared = orElse (setIsShared u) (isShared l),
      canEdit = orElse (setCanEdit u) (canEdit l), canDelete = orElse (setCanDelete u) (canDelete l),
      canShare = orElse (setCanShare u) (canShare l)\<rparr>"

definition mergeFilter :: "ListFilter \<Rightarrow> ListFilter \<Rightarrow> ListFilter" where
  "mergeFilter f p =
     \<lparr>searchTerm = (case searchTerm p of Some x \<Rightarrow> Some x | None \<Rightarrow> searchTerm f),
      showCompleted = (case showCompleted p of Some x \<Rightarrow> Some x | None \<Rightarrow> showCompleted f),
      showShared = (case showShared p of Some x \<Rightarrow> Some x | None \<Rightarrow> showShared f),
      showOwned = (case showOwned p of Some x \<Rightarrow> Some x | None \<Rightarrow> showOwned f),
      sortBy = (case sortBy p of Some x \<Rightarrow> Some x | None \<Rightarrow> sortBy f),
      sortOrder = (case sortOrder p of Some x \<Rightarrow> Some x | None \<Rightarrow> sortOrder f)\<rparr>"

definition initialListState :: ListState where
  "initialListState =
     \<lparr>stateLists = [], loading = False, stateError = None,
      stateFilter = \<lparr>searchTerm = None, showCompleted = Some True, showShared = Some True,
                     showOwned = Some True, sortBy = Some ByCreatedAt, sortOrder = Some Desc\<rparr>,
      selectedListId = None, lastSync = None\<rparr>"

text \<open>The statistics that the three task cases of the reducer write.\<close>

definition addTaskStatistics :: "ListStatistics \<Rightarrow> ListStatistics" where
  "addTaskStatistics s =
     s\<lparr>totalTasks := totalTasks s + 1,
       pendingTasks := pendingTasks s + 1,
       completionPercentage :=
         (if totalTasks s > 0 then (of_int (completedTasks s) / of_int (totalTasks s + 1)) * 100
          else 0)\<rparr>"

definition updateTaskStatistics :: "timestamp \<Rightarrow> ListStatistics \<Rightarrow> Task list \<Rightarrow> ListStatistics" where
  "updateTaskStatistics now s updatedTasks =
     (let total = int (length updatedTasks);
          done = int (length (filter completed updatedTasks));
          pending = total - done;
          percentage = (if total > 0 then (of_int done / of_int total) * 100 else 0)
      in s\<lparr>totalTasks := total, completedTasks := done, pendingTasks := pending,
           completionPercentage := percentage, lastActivity := now\<rparr>)"

definition deleteTaskStatistics :: "ListStatistics \<Rightarrow> ListStatistics" where
  "deleteTaskStatistics s =
     s\<lparr>totalTasks := totalTasks s - 1,
       pendingTasks := pendingTasks s - 1,
       completionPercentage :=
         (if totalTasks s > 1 then (of_int (completedTasks s) / of_int (totalTasks s - 1)) * 100
          else 0)\<rparr>"

fun listReducer :: "timestamp \<Rightarrow> ListState \<Rightarrow> ListAction \<Rightarrow> ListState" where
  "listReducer now state (SET_LOADING b) = state\<lparr>loading := b\<rparr>"
| "listReducer now state (SET_ERROR e) = state\<lparr>stateError := e, loading := False\<rparr>"
| "listReducer now state CLEAR_ERROR = state\<lparr>stateError := None\<rparr>"
| "listReducer now state (SET_LISTS ls) =
     state\<lparr>stateLists := ls, loading := False, stateError := None, lastSync := Some now\<rparr>"
| "listReducer now state (ADD_LIST l) =
     state\<lparr>stateLists := l # stateLists state, stateError := None\<rparr>"
| "listReducer now state (UPDATE_LIST lid updates) =
     state\<lparr>stateLists := map (\<lambda>l. if listId l = lid then mergeList l updates else l)
                                (stateLists state),
            stateError := None\<rparr>"
| "listReducer now state (DELETE_LIST lid) =
     state\<lparr>stateLists := filter (\<lambda>l. listId l \<noteq> lid) (stateLists state),
            selectedListId := (if selectedListId state = Some lid then None
                               else selectedListId state),
            stateError := None\<rparr>"
| "listReducer now state (ADD_TASK lid task) =
     state\<lparr>stateLists :=
              map (\<lambda>l. if listId l = lid
                        then l\<lparr>tasks := tasks l @ [task],
                               statistics := addTaskStatistics (statistics l)\<rparr>
                        else l) (stateLists state),
            stateError := None\<rparr>"
| "listReducer now state (UPDATE_TASK lid tid updates) =
     state\<lparr>stateLists :=
              map (\<lambda>l. if listId l = lid
                        then (let updatedTasks =
                                    map (\<lambda>t. if taskId t = tid then mergeTask t updates else t) (tasks l)
                              in l\<lparr>tasks := updatedTasks,
                                    statistics := updateTaskStatistics now (statistics l) updatedTasks\<rparr>)
                        else l) (stateLists state),
            stateError := None\<rparr>"
| "listReducer now state (DELETE_TASK lid tid) =
     state\<lparr>stateLists :=
              map (\<lambda>l. if listId l = lid
                        then l\<lparr>tasks := filter (\<lambda>t. taskId t \<noteq> tid) (tasks l),
                               statistics := deleteTaskStatistics (statistics l)\<rparr>
                        else l) (stateLists state),
            stateError := None\<rparr>"
| "listReducer now state (SET_FILTER p) = state\<lparr>stateFilter := mergeFilter (stateFilter state) p\<rparr>"
| "listReducer now state (SET_SELECTED_LIST sel) = state\<lparr>selectedListId := sel\<rparr>"
| "listReducer now state (SET_LAST_SYNC t) = state\<lparr>lastSync := Some t\<rparr>"

section \<open>The authentication service: lockout and sign-in (services/authService.ts)\<close>

record LoginAttempt =
  attemptEmail :: string
  attemptTimestamp :: timestamp
  attemptSuccess :: bool

text \<open>The token is determined by its payload: subject, issue time and expiry.\<close>

datatype Token = Token string timestamp timestamp

record SessionData =
  sessionToken :: Token
  sessionUser :: User
  expiresAt :: timestamp
  sessionLastActivity :: timestamp

text \<open>
  The state of the service: the map of login attempts and the session record of the
  storage (keys \<open>userToken\<close> and \<open>userData\<close>), written reliably.
\<close>

record AuthServiceState =
  loginAttempts :: "string \<rightharpoonup> LoginAttempt list"
  session :: "(Token \<times> SessionData) option"

definition maxAttempts :: nat where "maxAttempts = 5"
definition lockoutDuration :: int where "lockoutDuration = 15 * 60 * 1000"

definition attemptsOf :: "AuthServiceState \<Rightarrow> string \<Rightarrow> LoginAttempt list" where
  "attemptsOf st e = (case loginAttempts st e of None \<Rightarrow> [] | Some a \<Rightarrow> a)"

definition isUserLockedOut :: "AuthServiceState \<Rightarrow> timestamp \<Rightarrow> string \<Rightarrow> bool" where
  "isUserLockedOut st now e =
     (let recentFailedAttempts =
            filter (\<lambda>a. \<not> attemptSuccess a \<and> int now - int (attemptTimestamp a) < lockoutDuration)
                   (attemptsOf st e)
      in length recentFailedAttempts \<ge> maxAttempts)"

text \<open>\<open>attempts.slice(-10)\<close> keeps the last ten entries.\<close>

definition recordLoginAttempt :: "timestamp \<Rightarrow> string \<Rightarrow> bool \<Rightarrow> AuthServiceState \<Rightarrow> AuthServiceState" where
  "recordLoginAttempt now e ok st =
     (let attempts = attemptsOf st e @ [\<lparr>attemptEmail = e, attemptTimestamp = now, attemptSuccess = ok\<rparr>]
      in st\<lparr>loginAttempts := (loginAttempts st)(e \<mapsto> drop (length attempts - 10) attempts)\<rparr>)"

definition generateToken :: "timestamp \<Rightarrow> string \<Rightarrow> Token" where
  "generateToken now uid = Token uid now (now + 24 * 60 * 60 * 1000)"

definition signIn ::
  "User list \<Rightarrow> timestamp \<Rightarrow> AuthServiceState \<Rightarrow> string \<Rightarrow> string
     \<Rightarrow> (error + User \<times> Token) \<times> AuthServiceState" where
  "signIn users now st e p =
     (case validationSchemas_login e p of
        err # _ \<Rightarrow> (Inl err, st)
      | [] \<Rightarrow>
          if isUserLockedOut st now e then (Inl LockedOut, st)
          else
            (case find (\<lambda>u. email u = e \<and> password u = p) users of
               None \<Rightarrow> (Inl INVALID_CREDENTIALS, recordLoginAttempt now e False st)
             | Some user \<Rightarrow>
                 (let tok = generateToken now (userId user);
                      sessionData = \<lparr>sessionToken = tok, sessionUser = user,
                                      expiresAt = now + 24 * 60 * 60 * 1000,
                                      sessionLastActivity = now\<rparr>
                  in (Inr (user, tok),
                      recordLoginAttempt now e True (st\<lparr>session := Some (tok, sessionData)\<rparr>)))))"

section \<open>Predicates of the properties\<close>

text \<open>The statistics of a client-side list agree with the values recomputed from its
  current tasks (the time of the last activity apart).\<close>

definition statsAgree :: "ListWithStats \<Rightarrow> bool" where
  "statsAgree l =
     (totalTasks (statistics l) = totalTasks (calculateStatistics l)
      \<and> completedTasks (statistics l) = completedTasks (calculateStatistics l)
      \<and> pendingTasks (statistics l) = pendingTasks (calculateStatistics l)
      \<and> completionPercentage (statistics l) = completionPercentage (calculateStatistics l))"

text \<open>The task that an operation of user \<open>uid\<close> on list \<open>lid\<close> and task \<open>tid\<close> acts
  on: the first task with that id in the list that \<open>findListById\<close> resolves.\<close>

definition lookupTask :: "User list \<Rightarrow> ServiceState \<Rightarrow> string \<Rightarrow> string \<Rightarrow> string \<Rightarrow> Task option" where
  "lookupTask users st uid lid tid =
     (case findListById users st uid lid of
        None \<Rightarrow> None
      | Some d \<Rightarrow> find (\<lambda>t. taskId t = tid) (tasks (foundList d)))"

text \<open>
  \<open>findListById\<close> in the words of the specification: the requester's own collection is
  scanned for the id and a match is returned with the requester as owner; else the
  requester's email is resolved and the collections of the other known users are scanned,
  in the order of the directory, for a list with the id whose \<open>sharedWith\<close> contains that
  email, and the first match is returned with that user as owner; else nothing is found.
\<close>

definition firstOf :: "'a list \<Rightarrow> 'a option" where
  "firstOf xs = (case xs of [] \<Rightarrow> None | x # _ \<Rightarrow> Some x)"

definition sharedMatches ::
  "ServiceState \<Rightarrow> string \<Rightarrow> string \<Rightarrow> string \<Rightarrow> User list \<Rightarrow> (ListT \<times> string) list" where
  "sharedMatches st uid lid requesterEmail users =
     concat (map (\<lambda>u. map (\<lambda>l. (l, userId u))
                          (filter (\<lambda>l. listId l = lid \<and> requesterEmail \<in> set (sharedWith l))
                                  (getListsOrEmpty st (userId u))))
                 (filter (\<lambda>u. userId u \<noteq> uid) users))"

definition findListById_spec ::
  "User list \<Rightarrow> ServiceState \<Rightarrow> string \<Rightarrow> string \<Rightarrow> (ListT \<times> string) option" where
  "findListById_spec users st uid lid =
     (case find (\<lambda>l. listId l = lid) (getListsOrEmpty st uid) of
        Some l \<Rightarrow> Some (l, uid)
      | None \<Rightarrow>
          (case find (\<lambda>u. userId u = uid) users of
             None \<Rightarrow> None
           | Some requester \<Rightarrow> firstOf (sharedMatches st uid lid (email requester) users)))"

text \<open>The ids of the lists stored for the given users, collection by collection.\<close>

definition allListIds :: "ServiceState \<Rightarrow> string list \<Rightarrow> string list" where
  "allListIds st uids = concat (map (\<lambda>u. map listId (getListsOrEmpty st u)) uids)"

text \<open>
  User \<open>uid\<close> is neither the owner nor, by email, a collaborator of any list with id
  \<open>lid\<close> that is stored for a known user or for \<open>uid\<close>.
\<close>

definition noAccess :: "User list \<Rightarrow> ServiceState \<Rightarrow> string \<Rightarrow> string \<Rightarrow> bool" where
  "noAccess users st uid lid =
     list_all (\<lambda>l. listId l = lid \<longrightarrow> \<not> canUserEditList users l uid)
              (concat (map (getListsOrEmpty st) (uid # map userId users)))"

text \<open>The collection stored for \<open>uid\<close> itself holds a list with id \<open>lid\<close>.\<close>

definition ownCopy :: "ServiceState \<Rightarrow> string \<Rightarrow> string \<Rightarrow> bool" where
  "ownCopy st uid lid = list_ex (\<lambda>l. listId l = lid) (getListsOrEmpty st uid)"

text \<open>
  The storage is owner-keyed: every list stored under the key of a user has that user as
  its owner.
\<close>

definition ownerKeyed :: "ServiceState \<Rightarrow> bool" where
  "ownerKeyed st =
     (\<forall>uid ls. store st (getUserListsKey uid) = Some ls \<longrightarrow> (\<forall>l\<in>set ls. ownerId l = uid))"

text \<open>No stored list is shared with more than \<open>MAX_SHARED_USERS\<close> users.\<close>

definition withinShareLimit :: "ServiceState \<Rightarrow> bool" where
  "withinShareLimit st =
     (\<forall>uid. list_all (\<lambda>l. length (sharedWith l) \<le> MAX_SHARED_USERS) (getListsOrEmpty st uid))"

text \<open>
  The calls of the public operations of the list service, and the states that sequences
  of such calls reach from the empty storage. The directory, the clock, the id generator
  and the serialisation may differ from call to call.
\<close>

datatype Op =
    LoadUserLists string ListFilter
  | CreateList string CreateListPayload
  | UpdateList string string UpdateListPayload
  | DeleteList string string
  | ShareList string ShareListPayload
  | AddTask string CreateTaskPayload
  | UpdateTask string string string UpdateTaskPayload
  | DeleteTask string string string
  | ToggleTask string string string

fun exec ::
  "(ListFilter \<Rightarrow> string) \<Rightarrow> User list \<Rightarrow> (nat \<Rightarrow> string) \<Rightarrow> timestamp \<Rightarrow> ServiceState \<Rightarrow> Op
     \<Rightarrow> ServiceState" where
  "exec stringify users gen now st (LoadUserLists uid flt) =
     snd (loadUserLists stringify users gen now st uid flt)"
| "exec stringify users gen now st (CreateList uid payload) =
     snd (createList users gen now st uid payload)"
| "exec stringify users gen now st (UpdateList uid lid updates) =
     snd (updateList users now st uid lid updates)"
| "exec stringify users gen now st (DeleteList uid lid) = snd (deleteList users st uid lid)"
| "exec stringify users gen now st (ShareList uid payload) =
     snd (shareList users now st uid payload)"
| "exec stringify users gen now st (AddTask uid payload) =
     snd (addTask users (gen 0) now st uid payload)"
| "exec stringify users gen now st (UpdateTask uid lid tid updates) =
     snd (updateTask users now st uid lid tid updates)"
| "exec stringify users gen now st (DeleteTask uid lid tid) =
     snd (deleteTask users now st uid lid tid)"
| "exec stringify users gen now st (ToggleTask uid lid tid) =
     snd (toggleTask users now st uid lid tid)"

definition initialServiceState :: ServiceState where
  "initialServiceState = \<lparr>store = Map.empty, cache = Map.empty\<rparr>"

inductive reachable :: "ServiceState \<Rightarrow> bool" where
  initial: "reachable initialServiceState"
| step: "reachable st \<Longrightarrow> reachable (exec stringify users gen now st op)"

text \<open>
  A run of \<open>signIn\<close> calls, each with its time, email and password: which calls succeeded,
  and the state after the last one.
\<close>

type_synonym SignInCall = "timestamp \<times> string \<times> string"

fun signInRun ::
  "User list \<Rightarrow> SignInCall list \<Rightarrow> AuthServiceState \<Rightarrow> bool list \<times> AuthServiceState" where
  "signInRun users [] st = ([], st)"
| "signInRun users ((t, e, p) # calls) st =
     (case signIn users t st e p of
        (r, st') \<Rightarrow> (case signInRun users calls st' of (rs, st'') \<Rightarrow> ((\<not> isl r) # rs, st'')))"

text \<open>The last \<open>n\<close> elements of a list.\<close>

definition takeLast :: "nat \<Rightarrow> 'a list \<Rightarrow> 'a list" where
  "takeLast n xs = drop (length xs - n) xs"

text \<open>The failed attempts recorded for an email that are less than fifteen minutes old
  at the time \<open>now\<close>.\<close>

definition recentFailures :: "AuthServiceState \<Rightarrow> timestamp \<Rightarrow> string \<Rightarrow> LoginAttempt list" where
  "recentFailures st now e =
     filter (\<lambda>a. \<not> attemptSuccess a \<and> int now - int (attemptTimestamp a) < 15 * 60 * 1000)
            (attemptsOf st e)"

text \<open>
  The attempts of a run for the email \<open>e\<close> that passed the input validation and were not
  refused by the lockout, in the order of the calls, each with its time and with whether
  its credentials were those of a known user.
\<close>

fun acceptedAttempts ::
  "User list \<Rightarrow> SignInCall list \<Rightarrow> AuthServiceState \<Rightarrow> string \<Rightarrow> LoginAttempt list" where
  "acceptedAttempts users [] st e = []"
| "acceptedAttempts users ((t, e', p) # calls) st e =
     (if e' = e \<and> validationSchemas_login e' p = [] \<and> length (recentFailures st t e') < 5
      then [\<lparr>attemptEmail = e, attemptTimestamp = t,
              attemptSuccess = list_ex (\<lambda>u. email u = e \<and> password u = p) users\<rparr>]
      else [])
     @ acceptedAttempts users calls (snd (signIn users t st e' p)) e"

text \<open>The task that \<open>toggleTask\<close> writes in place of \<open>task\<close>.\<close>

definition toggled :: "timestamp \<Rightarrow> Task \<Rightarrow> Task" where
  "toggled now task = task\<lparr>completed := \<not> completed task,
                           completedAt := (if \<not> completed task then Some now else None)\<rparr>"

section \<open>Example data\<close>

definition milk :: Task where
  "milk = \<lparr>taskId = ''t1'', taskText = ''Milk'', completed = True,
           taskCreatedAt = Some 1000, completedAt = Some 2000\<rparr>"

definition eggs :: Task where
  "eggs = \<lparr>taskId = ''t2'', taskText = ''Eggs'', completed = False,
           taskCreatedAt = Some 1000, completedAt = None\<rparr>"

text \<open>A list of user 1 that is shared with user 2 (anna@example.com).\<close>

definition groceries :: ListT where
  "groceries = \<lparr>listId = ''L1'', title = ''Groceries'', ownerId = ''1'',
                sharedWith = [''anna@example.com''], tasks = [milk, eggs],
                createdAt = 1000, updatedAt = Some 2000\<rparr>"

text \<open>The storage that holds this list for user 1 and an empty collection for user 2;
  nothing is cached.\<close>

definition sharedState :: ServiceState where
  "sharedState = \<lparr>store = [getUserListsKey ''1'' \<mapsto> [groceries], getUserListsKey ''2'' \<mapsto> []],
                  cache = Map.empty\<rparr>"

text \<open>A storage in which user 1 has fifty lists.\<close>

definition fullState :: ServiceState where
  "fullState = \<lparr>store = [getUserListsKey ''1'' \<mapsto> replicate 50 groceries], cache = Map.empty\<rparr>"

definition exampleGen :: "nat \<Rightarrow> string" where
  "exampleGen n = ''id'' @ replicate n (CHR ''+'')"

text \<open>The filter \<open>{}\<close> and its serialisation.\<close>

definition noFilter :: ListFilter where
  "noFilter = \<lparr>searchTerm = None, showCompleted = None, showShared = None, showOwned = None,
               sortBy = None, sortOrder = None\<rparr>"

definition stringifyEmpty :: "ListFilter \<Rightarrow> string" where
  "stringifyEmpty f = ''{}''"

text \<open>User 2 loads her lists, then user 1 deletes the shared list.\<close>

definition afterLoad :: ServiceState where
  "afterLoad = snd (loadUserLists stringifyEmpty MOCK_USERS exampleGen 2500 sharedState ''2'' noFilter)"

definition afterDelete :: ServiceState where
  "afterDelete = snd (deleteList MOCK_USERS afterLoad ''1'' ''L1'')"

text \<open>The state reached when user 1 creates a list with two tasks on an empty storage.\<close>

definition createdState :: ServiceState where
  "createdState =
     exec stringifyEmpty MOCK_USERS exampleGen 1000 initialServiceState
       (CreateList ''1'' \<lparr>newTitle = ''Groceries'', initialTasks = Some [''Milk'', ''Eggs'']\<rparr>)"

definition initialAuthState :: AuthServiceState where
  "initialAuthState = \<lparr>loginAttempts = Map.empty, session = None\<rparr>"

text \<open>
  Sixteen sign-in calls for user@example.com within sixteen seconds: four with a wrong
  password, ten with the right one, one with a wrong password, one with the right one.
\<close>

definition lockoutCalls :: "SignInCall list" where
  "lockoutCalls =
     map (\<lambda>t. (t, ''user@example.com'', ''wrongpass'')) [1000, 2000, 3000, 4000]
     @ map (\<lambda>t. (t, ''user@example.com'', ''password123''))
           [5000, 6000, 7000, 8000, 9000, 10000, 11000, 12000, 13000, 14000]
     @ [(15000, ''user@example.com'', ''wrongpass''),
        (16000, ''user@example.com'', ''password123'')]"

text \<open>
  Five sign-in calls with a wrong password within fifteen minutes, the last four of them
  in the last four seconds, then two calls with the right password, 1.999 and 2 seconds
  after the last failure.
\<close>

definition spreadCalls :: "SignInCall list" where
  "spreadCalls =
     map (\<lambda>t. (t, ''user@example.com'', ''wrongpass'')) [1000, 896000, 897000, 898000, 899000]
     @ [(900999, ''user@example.com'', ''password123''),
        (901000, ''user@example.com'', ''password123'')]"

text \<open>Five sign-in calls with a wrong password, one second apart, and the state they
  leave.\<close>

definition fiveFailures :: "SignInCall list" where
  "fiveFailures = map (\<lambda>t. (t, ''user@example.com'', ''wrongpass'')) [1000, 2000, 3000, 4000, 5000]"

definition lockedState :: AuthServiceState where
  "lockedState = snd (signInRun MOCK_USERS fiveFailures initialAuthState)"

text \<open>Further calls on that state: right password, invalid password, wrong password, and
  a call for another email.\<close>

definition furtherCalls :: "SignInCall list" where
  "furtherCalls =
     [(6000, ''user@example.com'', ''password123''), (7000, ''user@example.com'', ''x''),
      (8000, ''anna@example.com'', ''password123''), (9000, ''user@example.com'', ''wrongpass'')]"

definition elevenEmails :: "string list" where
  "elevenEmails = map (\<lambda>c. c # ''@example.com'') ''abcdefghijk''"

text \<open>The client state of user 1 after loading that list.\<close>

definition clientState :: ListState where
  "clientState = initialListState\<lparr>stateLists := [enrichList MOCK_USERS groceries ''1'']\<rparr>"

section \<open>Statistics\<close>

text \<open>
  The service recomputes the statistics from the task sequence whenever it builds a
  \<open>ListWithStats\<close>: the counts, their sum and the percentage are those of the current
  tasks.
\<close>

lemma calculateStatistics_counts:
  "totalTasks (calculateStatistics l) = int (length (tasks l))
   \<and> completedTasks (calculateStatistics l) = int (length (filter completed (tasks l)))
   \<and> completedTasks (calculateStatistics l) + pendingTasks (calculateStatistics l)
       = totalTasks (calculateStatistics l)
   \<and> completionPercentage (calculateStatistics l)
       = (if totalTasks (calculateStatistics l) > 0
          then of_int (completedTasks (calculateStatistics l))
               / of_int (totalTasks (calculateStatistics l)) * 100
          else 0)"
  by (simp add: calculateStatistics_def Let_def)

lemma enrichList_statsAgree: "statsAgree (enrichList users l uid)"
  by (simp add: statsAgree_def enrichList_def calculateStatistics_def ListT.extend_def Let_def)

lemma addTask_statsAgree:
  assumes "statsAgree l" and "\<not> completed t"
  shows "statsAgree (l\<lparr>tasks := tasks l @ [t], statistics := addTaskStatistics (statistics l)\<rparr>)"
  using assms
  by (auto simp add: statsAgree_def calculateStatistics_def addTaskStatistics_def Let_def)

lemma updateTask_statsAgree:
  "statsAgree (l\<lparr>tasks := ts, statistics := updateTaskStatistics now (statistics l) ts\<rparr>)"
  by (simp add: statsAgree_def calculateStatistics_def updateTaskStatistics_def Let_def)

lemma reducer_ADD_TASK_statsAgree:
  assumes "list_all statsAgree (stateLists state)" and "\<not> completed t"
  shows "list_all statsAgree (stateLists (listReducer now state (ADD_TASK lid t)))"
  using assms by (auto simp add: list_all_iff addTask_statsAgree)

lemma reducer_UPDATE_TASK_statsAgree:
  assumes "list_all statsAgree (stateLists state)"
  shows "list_all statsAgree (stateLists (listReducer now state (UPDATE_TASK lid tid u)))"
  using assms by (auto simp add: list_all_iff updateTask_statsAgree Let_def)

text \<open>The \<open>DELETE_TASK\<close> case is right when the deleted task is pending (and the only
  one with its id).\<close>

lemma length_filter_split:
  "length (filter P xs) = length (filter P (filter Q xs)) + length (filter P (filter (\<lambda>x. \<not> Q x) xs))"
  by (induction xs) auto

lemma deleteTask_pending_statsAgree:
  assumes "statsAgree l" and "filter (\<lambda>t. taskId t = tid) (tasks l) = [t]" and "\<not> completed t"
  shows "statsAgree (l\<lparr>tasks := filter (\<lambda>t. taskId t \<noteq> tid) (tasks l),
                         statistics := deleteTaskStatistics (statistics l)\<rparr>)"
proof -
  have n: "length (tasks l) = 1 + length (filter (\<lambda>t. taskId t \<noteq> tid) (tasks l))"
    using sum_length_filter_compl[of "\<lambda>t. taskId t = tid" "tasks l"] assms(2) by simp
  have c: "length (filter completed (tasks l))
             = length (filter completed (filter (\<lambda>t. taskId t \<noteq> tid) (tasks l)))"
    using length_filter_split[of completed "tasks l" "\<lambda>t. taskId t = tid"] assms(2,3) by simp
  from assms(1) n c show ?thesis
    by (simp add: statsAgree_def calculateStatistics_def deleteTaskStatistics_def Let_def)
qed

lemma reducer_DELETE_TASK_pending_statsAgree:
  assumes "list_all statsAgree (stateLists state)"
    and "\<forall>l\<in>set (stateLists state). listId l = lid \<longrightarrow>
           (\<exists>t. filter (\<lambda>t. taskId t = tid) (tasks l) = [t] \<and> \<not> completed t)"
  shows "list_all statsAgree (stateLists (listReducer now state (DELETE_TASK lid tid)))"
  using assms by (auto simp add: list_all_iff deleteTask_pending_statsAgree)

text \<open>
  C1. After every task mutation the statistics of a list equal the values recomputed from
  its current tasks, in the service and in the client state. The service and the
  \<open>ADD_TASK\<close> and \<open>UPDATE_TASK\<close> cases of the reducer do so (lemmas above). The
  \<open>DELETE_TASK\<close> case does not: it lowers \<open>pendingTasks\<close> whatever the deleted task was.
  The list holds a completed task and a pending one and its statistics are right; after
  the completed task is deleted the state reports one completed task, none pending and
  100 percent, while the remaining task is pending (recomputed: 0 completed, 1 pending,
  0 percent).
\<close>

theorem C1_DELETE_TASK_statistics_drift:
  "list_all statsAgree (stateLists clientState)
   \<and> map (\<lambda>l. (tasks l, totalTasks (statistics l), completedTasks (statistics l),
                pendingTasks (statistics l), completionPercentage (statistics l)))
         (stateLists (listReducer 3000 clientState (DELETE_TASK ''L1'' ''t1'')))
       = [([eggs], 1, 1, 0, 100)]
   \<and> map (\<lambda>l. (totalTasks (calculateStatistics l), completedTasks (calculateStatistics l),
                pendingTasks (calculateStatistics l), completionPercentage (calculateStatistics l)))
         (stateLists (listReducer 3000 clientState (DELETE_TASK ''L1'' ''t1'')))
       = [(1, 0, 1, 0)]
   \<and> \<not> list_all statsAgree (stateLists (listReducer 3000 clientState (DELETE_TASK ''L1'' ''t1'')))"
  by (simp add: clientState_def initialListState_def enrichList_def groceries_def milk_def eggs_def
      statsAgree_def calculateStatistics_def deleteTaskStatistics_def ListT.extend_def Let_def)

section \<open>Storage and lookup\<close>

text \<open>A write goes to the key of the given user and to no other; clearing cache entries
  leaves the storage alone.\<close>

lemma getUserListsKey_inj: "getUserListsKey u = getUserListsKey v \<longleftrightarrow> u = v"
  by (simp add: getUserListsKey_def)

lemma store_clearCache: "store (clearCache u st) = store st"
  by (simp add: clearCache_def)

lemma store_clearCacheForSharedListUsers:
  "store (clearCacheForSharedListUsers users ls st) = store st"
proof -
  have "store (fold (\<lambda>e s. case find (\<lambda>u. email u = e) users of
                    Some u \<Rightarrow> clearCache (userId u) s | None \<Rightarrow> s) es st) = store st" for es
    by (induction es arbitrary: st) (auto simp add: store_clearCache split: option.splits)
  then show ?thesis by (simp add: clearCacheForSharedListUsers_def)
qed

lemma store_saveUserLists:
  "store (saveUserLists users uid ls st) = (store st)(getUserListsKey uid \<mapsto> ls)"
  by (simp add: saveUserLists_def store_clearCacheForSharedListUsers store_clearCache)

lemma getListsOrEmpty_saveUserLists:
  "getListsOrEmpty (saveUserLists users uid ls st) v
     = (if v = uid then ls else getListsOrEmpty st v)"
  by (simp add: getListsOrEmpty_def store_saveUserLists getUserListsKey_inj)

lemma findIndex_Some:
  "findIndex P xs = Some i \<Longrightarrow> i < length xs \<and> P (xs ! i) \<and> (\<forall>j<i. \<not> P (xs ! j))"
proof (induction xs arbitrary: i)
  case Nil
  then show ?case by simp
next
  case (Cons x xs)
  show ?case
  proof (cases "P x")
    case True
    with Cons.prems show ?thesis by simp
  next
    case False
    with Cons.prems obtain k where k: "findIndex P xs = Some k" "i = Suc k" by auto
    from Cons.IH[OF k(1)] False k(2) show ?thesis
      by (auto simp add: nth_Cons split: nat.splits)
  qed
qed

lemma findIndex_None: "findIndex P xs = None \<longleftrightarrow> (\<forall>x\<in>set xs. \<not> P x)"
  by (induction xs) auto

lemma findIndex_find:
  "find P xs = map_option (\<lambda>i. xs ! i) (findIndex P xs)"
  by (induction xs) (auto simp add: option.map_comp comp_def)

lemma findIndex_cong_update:
  assumes "i < length xs" and "P y = P (xs ! i)"
  shows "findIndex P (xs[i := y]) = findIndex P xs"
  using assms
proof (induction xs arbitrary: i)
  case Nil
  then show ?case by simp
next
  case (Cons x xs)
  then show ?case by (cases i) auto
qed

text \<open>What a successful \<open>findListById\<close> returns, and that it returns the same place after
  the list found there is replaced by one with the same id and the same collaborators.\<close>

lemma searchSharedLists_Some:
  assumes "searchSharedLists st uid lid e us = Some d"
  shows "ownerLists d = getListsOrEmpty st (foundOwnerId d)
         \<and> findIndex (\<lambda>l. listId l = lid \<and> e \<in> set (sharedWith l)) (ownerLists d) = Some (listIndex d)
         \<and> foundList d = ownerLists d ! listIndex d
         \<and> foundOwnerId d \<noteq> uid \<and> foundOwnerId d \<in> userId ` set us"
  using assms
proof (induction us)
  case Nil
  then show ?case by simp
next
  case (Cons u us)
  show ?case
  proof (cases "userId u \<noteq> uid")
    case False
    with Cons.prems have s: "searchSharedLists st uid lid e us = Some d" by simp
    from Cons.IH[OF s] show ?thesis by auto
  next
    case True
    show ?thesis
    proof (cases "findIndex (\<lambda>l. listId l = lid \<and> e \<in> set (sharedWith l)) (getListsOrEmpty st (userId u))")
      case None
      with True Cons.prems have s: "searchSharedLists st uid lid e us = Some d" by (simp add: Let_def)
      from Cons.IH[OF s] show ?thesis by auto
    next
      case (Some i)
      with True Cons.prems show ?thesis by (auto simp add: Let_def)
    qed
  qed
qed

lemma findListById_Some:
  assumes "findListById users st uid lid = Some d"
  shows "ownerLists d = getListsOrEmpty st (foundOwnerId d)
         \<and> listIndex d < length (ownerLists d)
         \<and> foundList d = ownerLists d ! listIndex d
         \<and> listId (foundList d) = lid"
proof (cases "findIndex (\<lambda>l. listId l = lid) (getListsOrEmpty st uid)")
  case (Some i)
  with assms have d: "d = \<lparr>foundList = getListsOrEmpty st uid ! i, foundOwnerId = uid,
                           listIndex = i, ownerLists = getListsOrEmpty st uid\<rparr>"
    by (simp add: findListById_def Let_def)
  from findIndex_Some[OF Some] d show ?thesis by simp
next
  case None
  with assms obtain e where e: "getCurrentUserEmail users uid = Some e"
      and s: "searchSharedLists st uid lid e users = Some d"
    by (auto simp add: findListById_def Let_def split: option.splits)
  from searchSharedLists_Some[OF s] have
    a: "ownerLists d = getListsOrEmpty st (foundOwnerId d)" and
    b: "findIndex (\<lambda>l. listId l = lid \<and> e \<in> set (sharedWith l)) (ownerLists d) = Some (listIndex d)" and
    c: "foundList d = ownerLists d ! listIndex d" by auto
  from findIndex_Some[OF b] a c show ?thesis by simp
qed

lemma searchSharedLists_update:
  assumes "searchSharedLists st uid lid e us = Some d"
    and "listId l' = listId (foundList d)" and "sharedWith l' = sharedWith (foundList d)"
    and "\<And>v. getListsOrEmpty st' v
              = (if v = foundOwnerId d then (ownerLists d)[listIndex d := l'] else getListsOrEmpty st v)"
  shows "searchSharedLists st' uid lid e us
           = Some (d\<lparr>foundList := l', ownerLists := (ownerLists d)[listIndex d := l']\<rparr>)"
  using assms(1)
proof (induction us)
  case Nil
  then show ?case by simp
next
  case (Cons u us)
  let ?P = "\<lambda>l. listId l = lid \<and> e \<in> set (sharedWith l)"
  from searchSharedLists_Some[OF Cons.prems] have
    a: "ownerLists d = getListsOrEmpty st (foundOwnerId d)" and
    b: "findIndex ?P (ownerLists d) = Some (listIndex d)" and
    c: "foundList d = ownerLists d ! listIndex d" by auto
  from findIndex_Some[OF b] have lt: "listIndex d < length (ownerLists d)" by simp
  have same: "findIndex ?P ((ownerLists d)[listIndex d := l']) = findIndex ?P (ownerLists d)"
    by (rule findIndex_cong_update[OF lt]) (simp add: assms(2,3) c)
  show ?case
  proof (cases "userId u \<noteq> uid")
    case False
    with Cons.prems have s: "searchSharedLists st uid lid e us = Some d" by simp
    from Cons.IH[OF s] False show ?thesis by simp
  next
    case True
    show ?thesis
    proof (cases "userId u = foundOwnerId d")
      case own: True
      with a b True Cons.prems have "d = \<lparr>foundList = ownerLists d ! listIndex d, foundOwnerId = userId u,
                           listIndex = listIndex d, ownerLists = ownerLists d\<rparr>"
        by (simp add: Let_def)
      with True own same b lt show ?thesis
        by (simp add: Let_def assms(4))
    next
      case other: False
      show ?thesis
      proof (cases "findIndex ?P (getListsOrEmpty st (userId u))")
        case None
        with True Cons.prems have s: "searchSharedLists st uid lid e us = Some d"
          by (simp add: Let_def)
        from Cons.IH[OF s] None True other show ?thesis by (simp add: Let_def assms(4))
      next
        case (Some i)
        with True Cons.prems have "foundOwnerId d = userId u" by (auto simp add: Let_def)
        with other show ?thesis by simp
      qed
    qed
  qed
qed

lemma findListById_update:
  assumes "findListById users st uid lid = Some d"
    and "listId l' = listId (foundList d)" and "sharedWith l' = sharedWith (foundList d)"
    and "\<And>v. getListsOrEmpty st' v
              = (if v = foundOwnerId d then (ownerLists d)[listIndex d := l'] else getListsOrEmpty st v)"
  shows "findListById users st' uid lid
           = Some (d\<lparr>foundList := l', ownerLists := (ownerLists d)[listIndex d := l']\<rparr>)"
proof (cases "findIndex (\<lambda>l. listId l = lid) (getListsOrEmpty st uid)")
  case (Some i)
  with assms(1) have d: "d = \<lparr>foundList = getListsOrEmpty st uid ! i, foundOwnerId = uid,
                           listIndex = i, ownerLists = getListsOrEmpty st uid\<rparr>"
    by (simp add: findListById_def Let_def)
  from findIndex_Some[OF Some] have lt: "i < length (getListsOrEmpty st uid)" by simp
  have "findIndex (\<lambda>l. listId l = lid) ((getListsOrEmpty st uid)[i := l'])
          = findIndex (\<lambda>l. listId l = lid) (getListsOrEmpty st uid)"
    by (rule findIndex_cong_update[OF lt]) (use assms(2) d in simp)
  with Some d lt show ?thesis
    by (simp add: findListById_def Let_def assms(4))
next
  case None
  with assms(1) obtain e where e: "getCurrentUserEmail users uid = Some e"
      and s: "searchSharedLists st uid lid e users = Some d"
    by (auto simp add: findListById_def Let_def split: option.splits)
  from searchSharedLists_Some[OF s] have ne: "foundOwnerId d \<noteq> uid" by simp
  from searchSharedLists_update[OF s assms(2,3,4)] None e ne show ?thesis
    by (simp add: findListById_def Let_def assms(4))
qed

lemmas example_defs = sharedState_def groceries_def milk_def eggs_def MOCK_USERS_def
  getListsOrEmpty_def getUserListsKey_def LISTS_PREFIX_def

section \<open>Toggling a task twice\<close>

lemma toggleTask_Inr:
  assumes "toggleTask users now st uid lid tid = (Inr task', st')"
  obtains d i where "findListById users st uid lid = Some d"
    and "canUserEditList users (foundList d) uid"
    and "findIndex (\<lambda>t. taskId t = tid) (tasks (foundList d)) = Some i"
    and "task' = toggled now (tasks (foundList d) ! i)"
    and "st' = saveUserLists users (foundOwnerId d)
                 ((ownerLists d)[listIndex d := (foundList d)
                     \<lparr>tasks := (tasks (foundList d))[i := task'], updatedAt := Some now\<rparr>]) st"
  using assms
  by (auto simp add: toggleTask_def toggled_def Let_def split: option.splits if_splits)

lemma toggleTask_success:
  assumes "findListById users st uid lid = Some d"
    and "canUserEditList users (foundList d) uid"
    and "findIndex (\<lambda>t. taskId t = tid) (tasks (foundList d)) = Some i"
  shows "toggleTask users now st uid lid tid
          = (Inr (toggled now (tasks (foundList d) ! i)),
             saveUserLists users (foundOwnerId d)
                 ((ownerLists d)[listIndex d := (foundList d)
                     \<lparr>tasks := (tasks (foundList d))[i := toggled now (tasks (foundList d) ! i)],
                      updatedAt := Some now\<rparr>]) st)"
  using assms by (simp add: toggleTask_def toggled_def Let_def)

lemma canUserEditList_cong:
  "ownerId l' = ownerId l \<Longrightarrow> sharedWith l' = sharedWith l
     \<Longrightarrow> canUserEditList users l' uid = canUserEditList users l uid"
  by (simp add: canUserEditList_def split: option.splits)

text \<open>
  C7 (as amended). When \<open>toggleTask\<close> succeeds for a user, a second call by the same user
  on the state it leaves succeeds as well; the task then has the \<open>completed\<close> flag it had
  before the first call. Its \<open>completedAt\<close> is cleared when the task was not completed
  before the first call, and is the time of the second call when it was.
\<close>

theorem C7_toggleTask_twice:
  assumes "toggleTask users t1 st uid lid tid = (Inr task1, st1)"
  shows "\<exists>task0 task2 st2.
           lookupTask users st uid lid tid = Some task0
           \<and> toggleTask users t2 st1 uid lid tid = (Inr task2, st2)
           \<and> lookupTask users st2 uid lid tid = Some task2
           \<and> completed task2 = completed task0
           \<and> completedAt task2 = (if completed task0 then Some t2 else None)"
proof -
  from assms obtain d i where
    f: "findListById users st uid lid = Some d" and
    p: "canUserEditList users (foundList d) uid" and
    k: "findIndex (\<lambda>t. taskId t = tid) (tasks (foundList d)) = Some i" and
    t: "task1 = toggled t1 (tasks (foundList d) ! i)" and
    s: "st1 = saveUserLists users (foundOwnerId d)
                 ((ownerLists d)[listIndex d := (foundList d)
                     \<lparr>tasks := (tasks (foundList d))[i := task1], updatedAt := Some t1\<rparr>]) st"
    by (rule toggleTask_Inr)
  define task0 where "task0 = tasks (foundList d) ! i"
  define l1 where "l1 = (foundList d)\<lparr>tasks := (tasks (foundList d))[i := task1], updatedAt := Some t1\<rparr>"
  define d1 where "d1 = d\<lparr>foundList := l1, ownerLists := (ownerLists d)[listIndex d := l1]\<rparr>"
  from findIndex_Some[OF k] have i: "i < length (tasks (foundList d))" and
    tid: "taskId (tasks (foundList d) ! i) = tid" by auto
  have f1: "findListById users st1 uid lid = Some d1"
    unfolding d1_def
    by (rule findListById_update[OF f]) (simp_all add: l1_def s getListsOrEmpty_saveUserLists)
  have p1: "canUserEditList users (foundList d1) uid"
    using p canUserEditList_cong[of l1 "foundList d" users uid] by (simp add: d1_def l1_def)
  have k1: "findIndex (\<lambda>t. taskId t = tid) (tasks (foundList d1)) = Some i"
    using k findIndex_cong_update[OF i, of "\<lambda>t. taskId t = tid" task1] tid
    by (simp add: d1_def l1_def t toggled_def)
  have n1: "tasks (foundList d1) ! i = task1"
    using i by (simp add: d1_def l1_def)
  define task2 where "task2 = toggled t2 task1"
  define l2 where "l2 = l1\<lparr>tasks := (tasks l1)[i := task2], updatedAt := Some t2\<rparr>"
  define st2 where "st2 = saveUserLists users (foundOwnerId d1)
                 ((ownerLists d1)[listIndex d1 := l2]) st1"
  have r2: "toggleTask users t2 st1 uid lid tid = (Inr task2, st2)"
    using toggleTask_success[OF f1 p1 k1, of t2] n1
    by (simp add: task2_def st2_def l2_def d1_def)
  have f2: "findListById users st2 uid lid
              = Some (d1\<lparr>foundList := l2, ownerLists := (ownerLists d1)[listIndex d1 := l2]\<rparr>)"
    by (rule findListById_update[OF f1])
       (simp_all add: l2_def d1_def st2_def getListsOrEmpty_saveUserLists)
  have i2: "i < length (tasks l1)" using i by (simp add: l1_def)
  have k2: "findIndex (\<lambda>t. taskId t = tid) (tasks l2) = Some i"
    using k1 findIndex_cong_update[OF i2, of "\<lambda>t. taskId t = tid" task2] n1 tid
    by (simp add: d1_def l2_def task2_def t toggled_def)
  have look0: "lookupTask users st uid lid tid = Some task0"
    using f k by (simp add: lookupTask_def findIndex_find task0_def)
  have look2: "lookupTask users st2 uid lid tid = Some task2"
    using f2 k2 i2 by (simp add: lookupTask_def findIndex_find l2_def)
  have c: "completed task2 = completed task0"
    by (simp add: task2_def t toggled_def task0_def)
  have a: "completedAt task2 = (if completed task0 then Some t2 else None)"
    by (simp add: task2_def t toggled_def task0_def)
  from look0 r2 look2 c a show ?thesis by blast
qed

theorem C7_toggleTask_twice_witness:
  "toggleTask MOCK_USERS 3000 sharedState ''1'' ''L1'' ''t2''
     = (Inr (toggled 3000 eggs), snd (toggleTask MOCK_USERS 3000 sharedState ''1'' ''L1'' ''t2''))
   \<and> (\<exists>task0 task2 st2.
           lookupTask MOCK_USERS sharedState ''1'' ''L1'' ''t2'' = Some task0
           \<and> toggleTask MOCK_USERS 4000 (snd (toggleTask MOCK_USERS 3000 sharedState ''1'' ''L1'' ''t2''))
                ''1'' ''L1'' ''t2'' = (Inr task2, st2)
           \<and> lookupTask MOCK_USERS st2 ''1'' ''L1'' ''t2'' = Some task2
           \<and> completed task2 = completed task0
           \<and> completedAt task2 = (if completed task0 then Some 4000 else None))"
proof -
  have "fst (toggleTask MOCK_USERS 3000 sharedState ''1'' ''L1'' ''t2'') = Inr (toggled 3000 eggs)"
    by (simp add: toggleTask_def toggled_def findListById_def canUserEditList_def example_defs Let_def)
  then have h: "toggleTask MOCK_USERS 3000 sharedState ''1'' ''L1'' ''t2''
     = (Inr (toggled 3000 eggs), snd (toggleTask MOCK_USERS 3000 sharedState ''1'' ''L1'' ''t2''))"
    by (simp add: prod_eq_iff)
  from C7_toggleTask_twice[OF h, of 4000] h show ?thesis by simp
qed

text \<open>
  C7 as stated fails for a task that is completed before the first call: the second call
  completes it again and sets \<open>completedAt\<close> to its own time instead of clearing it.
\<close>

theorem C7_completedAt_counterexample:
  "completed milk
   \<and> fst (toggleTask MOCK_USERS 3000 sharedState ''1'' ''L1'' ''t1'')
       = Inr \<lparr>taskId = ''t1'', taskText = ''Milk'', completed = False,
              taskCreatedAt = Some 1000, completedAt = None\<rparr>
   \<and> fst (toggleTask MOCK_USERS 4000
             (snd (toggleTask MOCK_USERS 3000 sharedState ''1'' ''L1'' ''t1'')) ''1'' ''L1'' ''t1'')
       = Inr \<lparr>taskId = ''t1'', taskText = ''Milk'', completed = True,
              taskCreatedAt = Some 1000, completedAt = Some 4000\<rparr>"
  by (simp add: toggleTask_def findListById_def canUserEditList_def example_defs Let_def
      store_saveUserLists)

section \<open>The limit of fifty lists\<close>

text \<open>
  C8. When the stored collection of a user has fifty lists (or more), \<open>createList\<close> fails
  and returns the state as it was: nothing is written and no cache entry is touched. The
  error is the limit error for every payload that passes the validation; the validation
  comes first, so a payload that fails it is refused with its first validation error,
  equally without a write.
\<close>

theorem C8_createList_limit:
  assumes "50 \<le> length (getListsOrEmpty st uid)"
  shows "createList users gen now st uid payload
           = (Inl (case validationSchemas_createList (newTitle payload)
                          (orElse (initialTasks payload) []) of
                     [] \<Rightarrow> ListLimit
                   | v # _ \<Rightarrow> v), st)"
  using assms
  by (simp add: createList_def orElse_def Let_def split: list.splits option.splits)

theorem C8_createList_limit_witness:
  "50 \<le> length (getListsOrEmpty fullState ''1'')
   \<and> createList MOCK_USERS exampleGen 5000 fullState ''1''
        \<lparr>newTitle = ''Holiday'', initialTasks = None\<rparr> = (Inl ListLimit, fullState)"
proof -
  have h: "50 \<le> length (getListsOrEmpty fullState ''1'')"
    by (simp add: fullState_def getListsOrEmpty_def)
  have v: "validationSchemas_createList ''Holiday'' [] = []"
    by (simp add: validationSchemas_createList_def validators_listTitle_def isValidListTitle_def
        trim_def isSpace_def errs_def MIN_LIST_TITLE_LENGTH_def MAX_LIST_TITLE_LENGTH_def
        MAX_TASKS_PER_LIST_def)
  from C8_createList_limit[OF h, of MOCK_USERS exampleGen 5000
         "\<lparr>newTitle = ''Holiday'', initialTasks = None\<rparr>"] h v
  show ?thesis by (simp add: orElse_def)
qed

section \<open>Callers without access\<close>

text \<open>For a caller without access the lookup finds nothing, unless the caller's own
  collection holds a list with that id, which the caller may then not edit.\<close>

lemma searchSharedLists_None:
  assumes "\<forall>u\<in>set us. \<forall>l\<in>set (getListsOrEmpty st (userId u)). listId l = lid \<longrightarrow> e \<notin> set (sharedWith l)"
  shows "searchSharedLists st uid lid e us = None"
  using assms
proof (induction us)
  case Nil
  then show ?case by simp
next
  case (Cons u us)
  then have "findIndex (\<lambda>l. listId l = lid \<and> e \<in> set (sharedWith l)) (getListsOrEmpty st (userId u)) = None"
    by (auto simp add: findIndex_None)
  with Cons show ?case by (simp add: Let_def)
qed

lemma noAccess_findListById:
  assumes "noAccess users st uid lid"
  shows "case findListById users st uid lid of
           None \<Rightarrow> \<not> ownCopy st uid lid
         | Some d \<Rightarrow> ownCopy st uid lid \<and> \<not> canUserEditList users (foundList d) uid"
proof (cases "findIndex (\<lambda>l. listId l = lid) (getListsOrEmpty st uid)")
  case (Some i)
  from findIndex_Some[OF Some] have i: "i < length (getListsOrEmpty st uid)"
    and m: "listId (getListsOrEmpty st uid ! i) = lid" by auto
  from i have mem: "getListsOrEmpty st uid ! i \<in> set (getListsOrEmpty st uid)" by simp
  with m have "ownCopy st uid lid" by (auto simp add: ownCopy_def list_ex_iff)
  moreover from assms mem m have "\<not> canUserEditList users (getListsOrEmpty st uid ! i) uid"
    by (simp add: noAccess_def list_all_iff)
  ultimately show ?thesis using Some by (simp add: findListById_def Let_def)
next
  case None
  then have no: "\<not> ownCopy st uid lid" by (simp add: ownCopy_def list_ex_iff findIndex_None)
  show ?thesis
  proof (cases "getCurrentUserEmail users uid")
    case n: None
    with None no show ?thesis by (simp add: findListById_def Let_def)
  next
    case (Some e)
    have "\<forall>u\<in>set users. \<forall>l\<in>set (getListsOrEmpty st (userId u)). listId l = lid \<longrightarrow> e \<notin> set (sharedWith l)"
    proof (intro ballI impI)
      fix u l assume "u \<in> set users" "l \<in> set (getListsOrEmpty st (userId u))" "listId l = lid"
      with assms have "\<not> canUserEditList users l uid" by (auto simp add: noAccess_def list_all_iff)
      with Some show "e \<notin> set (sharedWith l)" by (auto simp add: canUserEditList_def split: if_splits)
    qed
    from searchSharedLists_None[OF this] None Some no show ?thesis
      by (simp add: findListById_def Let_def)
  qed
qed

lemma noAccess_own:
  assumes "noAccess users st uid lid" and "l \<in> set (getListsOrEmpty st uid)" and "listId l = lid"
  shows "ownerId l \<noteq> uid"
  using assms by (auto simp add: noAccess_def list_all_iff canUserEditList_def split: if_splits)

lemma noAccess_updateList:
  assumes "noAccess users st uid lid"
  shows "updateList users now st uid lid upd
           = (Inl (if ownCopy st uid lid then EditForbidden else ListNotFound), st)"
proof (cases "findListById users st uid lid")
  case None
  with noAccess_findListById[OF assms] show ?thesis by (simp add: updateList_def)
next
  case (Some d)
  with noAccess_findListById[OF assms] show ?thesis by (simp add: updateList_def Let_def)
qed

lemma noAccess_addTask:
  assumes "noAccess users st uid lid"
  shows "addTask users newId now st uid \<lparr>newText = txt, targetListId = lid\<rparr>
           = (Inl (case validationSchemas_addTask txt of
                     v # _ \<Rightarrow> v
                   | [] \<Rightarrow> if ownCopy st uid lid then EditForbidden else ListNotFound), st)"
proof (cases "findListById users st uid lid")
  case None
  with noAccess_findListById[OF assms] show ?thesis
    by (simp add: addTask_def split: list.splits)
next
  case (Some d)
  with noAccess_findListById[OF assms] show ?thesis
    by (simp add: addTask_def Let_def split: list.splits)
qed

lemma noAccess_updateTask:
  assumes "noAccess users st uid lid"
  shows "updateTask users now st uid lid tid tupd
           = (Inl (if ownCopy st uid lid then EditForbidden else ListNotFound), st)"
proof (cases "findListById users st uid lid")
  case None
  with noAccess_findListById[OF assms] show ?thesis by (simp add: updateTask_def)
next
  case (Some d)
  with noAccess_findListById[OF assms] show ?thesis by (simp add: updateTask_def Let_def)
qed

lemma noAccess_deleteTask:
  assumes "noAccess users st uid lid"
  shows "deleteTask users now st uid lid tid
           = (Inl (if ownCopy st uid lid then EditForbidden else ListNotFound), st)"
proof (cases "findListById users st uid lid")
  case None
  with noAccess_findListById[OF assms] show ?thesis by (simp add: deleteTask_def)
next
  case (Some d)
  with noAccess_findListById[OF assms] show ?thesis by (simp add: deleteTask_def Let_def)
qed

lemma noAccess_toggleTask:
  assumes "noAccess users st uid lid"
  shows "toggleTask users now st uid lid tid
           = (Inl (if ownCopy st uid lid then EditForbidden else ListNotFound), st)"
proof (cases "findListById users st uid lid")
  case None
  with noAccess_findListById[OF assms] show ?thesis by (simp add: toggleTask_def)
next
  case (Some d)
  with noAccess_findListById[OF assms] show ?thesis by (simp add: toggleTask_def Let_def)
qed

lemma noAccess_deleteList:
  assumes "noAccess users st uid lid"
  shows "deleteList users st uid lid
           = (Inl (if ownCopy st uid lid then OnlyOwnerDelete else ListNotFound), st)"
proof (cases "find (\<lambda>l. listId l = lid) (getListsOrEmpty st uid)")
  case None
  then have "\<not> ownCopy st uid lid" by (simp add: ownCopy_def list_ex_iff find_None_iff)
  with None show ?thesis by (simp add: deleteList_def Let_def)
next
  case (Some l)
  then have "l \<in> set (getListsOrEmpty st uid)" "listId l = lid"
    by (auto simp add: find_Some_iff)
  with noAccess_own[OF assms] Some show ?thesis
    by (auto simp add: deleteList_def Let_def ownCopy_def list_ex_iff)
qed

lemma noAccess_shareList:
  assumes "noAccess users st uid lid"
  shows "shareList users now st uid \<lparr>shareListId = lid, userEmail = e\<rparr>
           = (Inl (case validationSchemas_shareList e of
                     v # _ \<Rightarrow> v
                   | [] \<Rightarrow> (case find (\<lambda>u. email u = e) users of
                               None \<Rightarrow> USER_NOT_FOUND
                             | Some target \<Rightarrow>
                                 if userId target = uid then SelfShare
                                 else if ownCopy st uid lid then OnlyOwnerShare
                                 else ListNotFound)), st)"
proof (cases "findIndex (\<lambda>l. listId l = lid) (getListsOrEmpty st uid)")
  case None
  then have "\<not> ownCopy st uid lid" by (simp add: ownCopy_def list_ex_iff findIndex_None)
  with None show ?thesis
    by (simp add: shareList_def Let_def split: list.splits option.splits)
next
  case (Some i)
  from findIndex_Some[OF Some] have i: "i < length (getListsOrEmpty st uid)"
    and m: "listId (getListsOrEmpty st uid ! i) = lid" by auto
  from i have mem: "getListsOrEmpty st uid ! i \<in> set (getListsOrEmpty st uid)" by simp
  with m have "ownCopy st uid lid" by (auto simp add: ownCopy_def list_ex_iff)
  with noAccess_own[OF assms mem m] Some show ?thesis
    by (simp add: shareList_def Let_def split: list.splits option.splits)
qed

lemma anna_email_valid: "validationSchemas_shareList ''anna@example.com'' = []"
  by (simp add: validationSchemas_shareList_def validators_email_def isValidEmail_def emailRegex_def
      trim_def isSpace_def errs_def MAX_EMAIL_LENGTH_def)

text \<open>
  C2 (as amended). For a list id and a user who is neither the owner nor, by email, in
  \<open>sharedWith\<close> of any stored list with that id, every edit (\<open>updateList\<close>, \<open>addTask\<close>,
  \<open>updateTask\<close>, \<open>deleteTask\<close>, \<open>toggleTask\<close>), \<open>deleteList\<close> and \<open>shareList\<close> return a
  failure and the state as it was. The error is the not-found error, and a permission error
  only when the caller's own collection holds a list with that id; \<open>addTask\<close> and
  \<open>shareList\<close> report a failure of their input checks (validation, unknown or own target
  email) first.
\<close>

theorem C2_no_access_fails:
  assumes "noAccess users st uid lid"
  shows "updateList users now st uid lid upd
           = (Inl (if ownCopy st uid lid then EditForbidden else ListNotFound), st)
     \<and> addTask users newId now st uid \<lparr>newText = txt, targetListId = lid\<rparr>
           = (Inl (case validationSchemas_addTask txt of
                     v # _ \<Rightarrow> v
                   | [] \<Rightarrow> if ownCopy st uid lid then EditForbidden else ListNotFound), st)
     \<and> updateTask users now st uid lid tid tupd
           = (Inl (if ownCopy st uid lid then EditForbidden else ListNotFound), st)
     \<and> deleteTask users now st uid lid tid
           = (Inl (if ownCopy st uid lid then EditForbidden else ListNotFound), st)
     \<and> toggleTask users now st uid lid tid
           = (Inl (if ownCopy st uid lid then EditForbidden else ListNotFound), st)
     \<and> deleteList users st uid lid
           = (Inl (if ownCopy st uid lid then OnlyOwnerDelete else ListNotFound), st)
     \<and> shareList users now st uid \<lparr>shareListId = lid, userEmail = e\<rparr>
           = (Inl (case validationSchemas_shareList e of
                     v # _ \<Rightarrow> v
                   | [] \<Rightarrow> (case find (\<lambda>u. email u = e) users of
                               None \<Rightarrow> USER_NOT_FOUND
                             | Some target \<Rightarrow>
                                 if userId target = uid then SelfShare
                                 else if ownCopy st uid lid then OnlyOwnerShare
                                 else ListNotFound)), st)"
  using noAccess_updateList[OF assms] noAccess_addTask[OF assms] noAccess_updateTask[OF assms]
    noAccess_deleteTask[OF assms] noAccess_toggleTask[OF assms] noAccess_deleteList[OF assms]
    noAccess_shareList[OF assms]
  by blast

theorem C2_no_access_fails_witness:
  "noAccess MOCK_USERS sharedState ''3'' ''L1''
   \<and> \<not> ownCopy sharedState ''3'' ''L1''
   \<and> updateList MOCK_USERS 3000 sharedState ''3'' ''L1'' \<lparr>updTitle = Some ''Mine'', updSharedWith = None\<rparr>
       = (Inl ListNotFound, sharedState)
   \<and> toggleTask MOCK_USERS 3000 sharedState ''3'' ''L1'' ''t1'' = (Inl ListNotFound, sharedState)
   \<and> deleteList MOCK_USERS sharedState ''3'' ''L1'' = (Inl ListNotFound, sharedState)
   \<and> shareList MOCK_USERS 3000 sharedState ''3'' \<lparr>shareListId = ''L1'', userEmail = ''anna@example.com''\<rparr>
       = (Inl ListNotFound, sharedState)"
proof -
  have h: "noAccess MOCK_USERS sharedState ''3'' ''L1''"
    by (simp add: noAccess_def canUserEditList_def getCurrentUserEmail_def example_defs)
  have o: "\<not> ownCopy sharedState ''3'' ''L1''"
    by (simp add: ownCopy_def example_defs)
  have f: "find (\<lambda>u. email u = ''anna@example.com'') MOCK_USERS = Some (MOCK_USERS ! 1)"
    by (simp add: MOCK_USERS_def)
  have u: "userId (MOCK_USERS ! 1) \<noteq> ''3''" by (simp add: MOCK_USERS_def)
  from C2_no_access_fails[OF h, of 3000 "\<lparr>updTitle = Some ''Mine'', updSharedWith = None\<rparr>"
      "''new''" "''Bread''" "''t1''" "\<lparr>updText = None, updCompleted = None\<rparr>" "''anna@example.com''"]
    h o f u anna_email_valid
  show ?thesis by simp
qed

text \<open>
  C2 as stated asks for a permission error. User 3 is neither the owner of the list of
  user 1 nor among its collaborators; the three calls fail, with the not-found error.
\<close>

theorem C2_permission_error_counterexample:
  "ownerId groceries \<noteq> ''3''
   \<and> getCurrentUserEmail MOCK_USERS ''3'' = Some ''test@example.com''
   \<and> ''test@example.com'' \<notin> set (sharedWith groceries)
   \<and> getListsOrEmpty sharedState ''1'' = [groceries]
   \<and> updateList MOCK_USERS 3000 sharedState ''3'' ''L1'' \<lparr>updTitle = Some ''Mine'', updSharedWith = None\<rparr>
       = (Inl ListNotFound, sharedState)
   \<and> deleteList MOCK_USERS sharedState ''3'' ''L1'' = (Inl ListNotFound, sharedState)
   \<and> shareList MOCK_USERS 3000 sharedState ''3'' \<lparr>shareListId = ''L1'', userEmail = ''anna@example.com''\<rparr>
       = (Inl ListNotFound, sharedState)
   \<and> \<not> isPermissionError ListNotFound"
  by (simp add: updateList_def deleteList_def shareList_def findListById_def getCurrentUserEmail_def
      anna_email_valid isPermissionError_def example_defs Let_def)

section \<open>Who may delete, share and edit\<close>

text \<open>\<open>deleteList\<close> and \<open>shareList\<close> succeed only on a list of the caller's own
  collection whose owner is the caller; \<open>updateList\<close> succeeds for whoever may edit the
  list that the lookup finds.\<close>

lemma deleteList_success_owner:
  assumes "deleteList users st uid lid = (Inr u, st')"
  shows "\<exists>l\<in>set (getListsOrEmpty st uid). listId l = lid \<and> ownerId l = uid"
  using assms
  by (auto simp add: deleteList_def Let_def find_Some_iff split: option.splits if_splits)

lemma shareList_success_owner:
  assumes "shareList users now st uid p = (Inr u, st')"
  shows "\<exists>l\<in>set (getListsOrEmpty st uid). listId l = shareListId p \<and> ownerId l = uid"
proof -
  from assms obtain i where
    i: "findIndex (\<lambda>l. listId l = shareListId p) (getListsOrEmpty st uid) = Some i"
    and o: "ownerId (getListsOrEmpty st uid ! i) = uid"
    by (auto simp add: shareList_def Let_def split: list.splits option.splits if_splits)
  from findIndex_Some[OF i] o show ?thesis by (auto intro!: bexI[of _ "getListsOrEmpty st uid ! i"])
qed

lemma updateList_success:
  assumes "findListById users st uid lid = Some d"
    and "canUserEditList users (foundList d) uid"
    and "case updTitle upd of None \<Rightarrow> True | Some t \<Rightarrow> validators_listTitle t = None"
  shows "\<exists>r st'. updateList users now st uid lid upd = (Inr r, st')"
  using assms by (auto simp add: updateList_def Let_def split: option.splits)

lemma canUserEditList_iff:
  "canUserEditList users l uid
     \<longleftrightarrow> ownerId l = uid
         \<or> (\<exists>e. getCurrentUserEmail users uid = Some e \<and> e \<in> set (sharedWith l))"
  by (auto simp add: canUserEditList_def split: option.splits)

lemma addTask_success:
  assumes "findListById users st uid (targetListId payload) = Some d"
    and "canUserEditList users (foundList d) uid"
    and "validationSchemas_addTask (newText payload) = []"
    and "length (tasks (foundList d)) < MAX_TASKS_PER_LIST"
  shows "\<exists>t st'. addTask users newId now st uid payload = (Inr t, st')"
  using assms by (simp add: addTask_def Let_def)

lemma updateTask_success:
  assumes "findListById users st uid lid = Some d"
    and "canUserEditList users (foundList d) uid"
    and "findIndex (\<lambda>t. taskId t = tid) (tasks (foundList d)) = Some i"
    and "case updText updates of None \<Rightarrow> True | Some t \<Rightarrow> validators_taskText t = None"
  shows "\<exists>t st'. updateTask users now st uid lid tid updates = (Inr t, st')"
  using assms by (auto simp add: updateTask_def Let_def split: option.splits)

lemma deleteTask_success:
  assumes "findListById users st uid lid = Some d"
    and "canUserEditList users (foundList d) uid"
    and "list_ex (\<lambda>t. taskId t = tid) (tasks (foundList d))"
  shows "\<exists>st'. deleteTask users now st uid lid tid = (Inr (), st')"
  using assms by (simp add: deleteTask_def Let_def)

text \<open>The task operations leave the \<open>sharedWith\<close> of every stored list as it is.\<close>

lemma replace_sharedWith:
  assumes "findListById users st uid lid = Some d"
    and "sharedWith l' = sharedWith (foundList d)"
  shows "map sharedWith (getListsOrEmpty
            (saveUserLists users (foundOwnerId d) ((ownerLists d)[listIndex d := l']) st) v)
         = map sharedWith (getListsOrEmpty st v)"
proof -
  from findListById_Some[OF assms(1)] have
    a: "ownerLists d = getListsOrEmpty st (foundOwnerId d)" and
    b: "listIndex d < length (ownerLists d)" and
    c: "foundList d = ownerLists d ! listIndex d" by auto
  have "map sharedWith ((ownerLists d)[listIndex d := l']) = map sharedWith (ownerLists d)"
    using b c assms(2) by (simp add: map_update list_update_same_conv)
  with a show ?thesis by (simp add: getListsOrEmpty_saveUserLists)
qed

lemma addTask_sharedWith:
  "map sharedWith (getListsOrEmpty (snd (addTask users newId now st uid payload)) v)
     = map sharedWith (getListsOrEmpty st v)"
proof (cases "findListById users st uid (targetListId payload)")
  case None
  then show ?thesis by (simp add: addTask_def split: list.splits)
next
  case (Some d)
  have "map sharedWith (getListsOrEmpty
            (saveUserLists users (foundOwnerId d) ((ownerLists d)[listIndex d := l']) st) v)
         = map sharedWith (getListsOrEmpty st v)" if "sharedWith l' = sharedWith (foundList d)" for l'
    by (rule replace_sharedWith[OF Some that])
  with Some show ?thesis by (simp add: addTask_def Let_def split: list.splits)
qed

lemma updateTask_sharedWith:
  "map sharedWith (getListsOrEmpty (snd (updateTask users now st uid lid tid updates)) v)
     = map sharedWith (getListsOrEmpty st v)"
proof (cases "findListById users st uid lid")
  case None
  then show ?thesis by (simp add: updateTask_def)
next
  case (Some d)
  have "map sharedWith (getListsOrEmpty
            (saveUserLists users (foundOwnerId d) ((ownerLists d)[listIndex d := l']) st) v)
         = map sharedWith (getListsOrEmpty st v)" if "sharedWith l' = sharedWith (foundList d)" for l'
    by (rule replace_sharedWith[OF Some that])
  with Some show ?thesis by (simp add: updateTask_def Let_def split: option.splits)
qed

lemma deleteTask_sharedWith:
  "map sharedWith (getListsOrEmpty (snd (deleteTask users now st uid lid tid)) v)
     = map sharedWith (getListsOrEmpty st v)"
proof (cases "findListById users st uid lid")
  case None
  then show ?thesis by (simp add: deleteTask_def)
next
  case (Some d)
  have "map sharedWith (getListsOrEmpty
            (saveUserLists users (foundOwnerId d) ((ownerLists d)[listIndex d := l']) st) v)
         = map sharedWith (getListsOrEmpty st v)" if "sharedWith l' = sharedWith (foundList d)" for l'
    by (rule replace_sharedWith[OF Some that])
  with Some show ?thesis by (simp add: deleteTask_def Let_def)
qed

lemma toggleTask_sharedWith:
  "map sharedWith (getListsOrEmpty (snd (toggleTask users now st uid lid tid)) v)
     = map sharedWith (getListsOrEmpty st v)"
proof (cases "findListById users st uid lid")
  case None
  then show ?thesis by (simp add: toggleTask_def)
next
  case (Some d)
  have "map sharedWith (getListsOrEmpty
            (saveUserLists users (foundOwnerId d) ((ownerLists d)[listIndex d := l']) st) v)
         = map sharedWith (getListsOrEmpty st v)" if "sharedWith l' = sharedWith (foundList d)" for l'
    by (rule replace_sharedWith[OF Some that])
  with Some show ?thesis by (simp add: toggleTask_def Let_def split: option.splits)
qed

text \<open>
  C3. Only the owner can change which users a list is shared with. \<open>shareList\<close> enforces
  this, \<open>updateList\<close> does not: it asks for edit permission only and then stores the
  \<open>sharedWith\<close> of its payload. User 2 is a collaborator of the list of user 1, not its
  owner; her call succeeds and the stored list is afterwards shared with a further user.
\<close>

theorem C3_collaborator_rewrites_sharedWith:
  "getListsOrEmpty sharedState ''1'' = [groceries]
   \<and> ownerId groceries = ''1''
   \<and> sharedWith groceries = [''anna@example.com'']
   \<and> fst (updateList MOCK_USERS 3000 sharedState ''2'' ''L1''
             \<lparr>updTitle = None, updSharedWith = Some [''anna@example.com'', ''test@example.com'']\<rparr>)
       = Inr (enrichList MOCK_USERS
                (groceries\<lparr>sharedWith := [''anna@example.com'', ''test@example.com''],
                           updatedAt := Some 3000\<rparr>) ''2'')
   \<and> getListsOrEmpty (snd (updateList MOCK_USERS 3000 sharedState ''2'' ''L1''
             \<lparr>updTitle = None, updSharedWith = Some [''anna@example.com'', ''test@example.com'']\<rparr>)) ''1''
       = [groceries\<lparr>sharedWith := [''anna@example.com'', ''test@example.com''],
                    updatedAt := Some 3000\<rparr>]"
  by (simp add: updateList_def findListById_def canUserEditList_def getCurrentUserEmail_def
      example_defs Let_def store_saveUserLists)

section \<open>Sharing twice, and the limit of collaborators\<close>

text \<open>A second \<open>shareList\<close> with the same payload fails and changes nothing, whether the
  first call succeeded (the email is then already present) or failed.\<close>

lemma shareList_failure_unchanged:
  assumes "shareList users now st uid p = (Inl e, st')"
  shows "st' = st \<and> shareList users now' st uid p = (Inl e, st)"
  using assms
  by (auto simp add: shareList_def Let_def split: list.splits option.splits if_splits)

lemma shareList_twice:
  "\<exists>e. shareList users t2 (snd (shareList users t1 st uid p)) uid p
          = (Inl e, snd (shareList users t1 st uid p))"
proof (cases "fst (shareList users t1 st uid p)")
  case (Inl e)
  then have "shareList users t1 st uid p = (Inl e, snd (shareList users t1 st uid p))"
    by (simp add: prod_eq_iff)
  from shareList_failure_unchanged[OF this, of t2] show ?thesis by auto
next
  case (Inr u)
  let ?cur = "getListsOrEmpty st uid"
  from Inr obtain target i where
    v: "validationSchemas_shareList (userEmail p) = []" and
    t: "find (\<lambda>u. email u = userEmail p) users = Some target" and
    ns: "userId target \<noteq> uid" and
    i: "findIndex (\<lambda>l. listId l = shareListId p) ?cur = Some i" and
    o: "ownerId (?cur ! i) = uid" and
    s: "snd (shareList users t1 st uid p)
          = clearCache (userId target)
              (saveUserLists users uid
                 (?cur[i := (?cur ! i)\<lparr>sharedWith := sharedWith (?cur ! i) @ [userEmail p],
                                       updatedAt := Some t1\<rparr>]) st)"
    by (auto simp add: shareList_def Let_def split: list.splits option.splits if_splits)
  let ?upd = "(?cur ! i)\<lparr>sharedWith := sharedWith (?cur ! i) @ [userEmail p], updatedAt := Some t1\<rparr>"
  define st1 where "st1 = snd (shareList users t1 st uid p)"
  from findIndex_Some[OF i] have lt: "i < length ?cur" by simp
  have g: "getListsOrEmpty st1 uid = ?cur[i := ?upd]"
    by (simp add: st1_def s getListsOrEmpty_def store_clearCache store_saveUserLists)
  have k: "findIndex (\<lambda>l. listId l = shareListId p) (?cur[i := ?upd]) = Some i"
    using findIndex_cong_update[OF lt, of "\<lambda>l. listId l = shareListId p" ?upd] i by simp
  have "shareList users t2 st1 uid p = (Inl AlreadyShared, st1)"
    using v t ns k lt o by (simp add: shareList_def Let_def g)
  then show ?thesis unfolding st1_def by blast
qed

text \<open>Every operation other than \<open>updateList\<close> keeps the stored lists within the
  limit of collaborators.\<close>

lemma withinShareLimit_map:
  "withinShareLimit st = (\<forall>uid. list_all (\<lambda>n. n \<le> MAX_SHARED_USERS)
                                 (map (\<lambda>sw. length sw) (map sharedWith (getListsOrEmpty st uid))))"
  by (simp add: withinShareLimit_def list_all_iff)

lemma withinShareLimit_shareList:
  assumes "withinShareLimit st"
  shows "withinShareLimit (snd (shareList users now st uid payload))"
proof -
  let ?cur = "getListsOrEmpty st uid"
  have "withinShareLimit (clearCache t (saveUserLists users uid (?cur[i := l']) st))"
    if "length (sharedWith l') \<le> MAX_SHARED_USERS" for t i l'
  proof -
    have "list_all (\<lambda>l. length (sharedWith l) \<le> MAX_SHARED_USERS) (?cur[i := l'])"
      using assms that
      by (auto simp add: withinShareLimit_def list_all_iff dest!: set_update_subset_insert[THEN subsetD])
    with assms show ?thesis
      by (simp add: withinShareLimit_def getListsOrEmpty_def store_clearCache store_saveUserLists
          getUserListsKey_inj)
  qed
  with assms show ?thesis
    by (simp add: shareList_def Let_def split: list.splits option.splits)
qed

lemma withinShareLimit_createList:
  assumes "withinShareLimit st"
  shows "withinShareLimit (snd (createList users gen now st uid payload))"
  using assms
  by (simp add: createList_def Let_def withinShareLimit_def getListsOrEmpty_saveUserLists
      split: list.splits)

lemma withinShareLimit_deleteList:
  assumes "withinShareLimit st"
  shows "withinShareLimit (snd (deleteList users st uid lid))"
  using assms
  by (auto simp add: deleteList_def Let_def withinShareLimit_def getListsOrEmpty_saveUserLists
      list_all_iff split: option.splits)

lemma withinShareLimit_loadUserLists:
  assumes "withinShareLimit st"
  shows "withinShareLimit (snd (loadUserLists stringify users gen now st uid flt))"
proof (cases "cache st (uid @ ''_'' @ stringify flt)")
  case (Some cached)
  with assms show ?thesis by (simp add: loadUserLists_def Let_def)
next
  case None
  show ?thesis
  proof (cases "store st (getUserListsKey uid)")
    case s: (Some storedLists)
    with None assms show ?thesis
      by (simp add: loadUserLists_def Let_def withinShareLimit_def getListsOrEmpty_def)
  next
    case n: None
    with None assms show ?thesis
      by (simp add: loadUserLists_def Let_def withinShareLimit_def getListsOrEmpty_def
          sampleLists_def getUserListsKey_inj MAX_SHARED_USERS_def)
  qed
qed

lemma withinShareLimit_exec:
  assumes "withinShareLimit st" and "\<And>uid lid updates. op \<noteq> UpdateList uid lid updates"
  shows "withinShareLimit (exec stringify users gen now st op)"
proof (cases op)
  case (UpdateList uid lid updates)
  with assms(2)[of uid lid updates] show ?thesis by blast
next
  case (LoadUserLists uid flt)
  with assms(1) show ?thesis by (simp add: withinShareLimit_loadUserLists)
next
  case (CreateList uid payload)
  with assms(1) show ?thesis by (simp add: withinShareLimit_createList)
next
  case (DeleteList uid lid)
  with assms(1) show ?thesis by (simp add: withinShareLimit_deleteList)
next
  case (ShareList uid payload)
  with assms(1) show ?thesis by (simp add: withinShareLimit_shareList)
next
  case (AddTask uid payload)
  with assms(1) show ?thesis by (simp add: withinShareLimit_map addTask_sharedWith)
next
  case (UpdateTask uid lid tid updates)
  with assms(1) show ?thesis by (simp add: withinShareLimit_map updateTask_sharedWith)
next
  case (DeleteTask uid lid tid)
  with assms(1) show ?thesis by (simp add: withinShareLimit_map deleteTask_sharedWith)
next
  case (ToggleTask uid lid tid)
  with assms(1) show ?thesis by (simp add: withinShareLimit_map toggleTask_sharedWith)
qed

text \<open>
  C6. \<open>sharedWith\<close> never has more than ten entries. \<open>shareList\<close> checks the limit;
  \<open>updateList\<close> stores the \<open>sharedWith\<close> of its payload unchecked, here eleven emails.
\<close>

theorem C6_updateList_exceeds_share_limit:
  "MAX_SHARED_USERS = 10
   \<and> length elevenEmails = 11
   \<and> fst (updateList MOCK_USERS 3000 sharedState ''1'' ''L1''
             \<lparr>updTitle = None, updSharedWith = Some elevenEmails\<rparr>)
       = Inr (enrichList MOCK_USERS
                (groceries\<lparr>sharedWith := elevenEmails, updatedAt := Some 3000\<rparr>) ''1'')
   \<and> map (\<lambda>l. length (sharedWith l))
         (getListsOrEmpty (snd (updateList MOCK_USERS 3000 sharedState ''1'' ''L1''
             \<lparr>updTitle = None, updSharedWith = Some elevenEmails\<rparr>)) ''1'')
       = [11]"
  by (simp add: updateList_def findListById_def canUserEditList_def getCurrentUserEmail_def
      example_defs Let_def store_saveUserLists elevenEmails_def MAX_SHARED_USERS_def)

section \<open>Cached views after a deletion\<close>

lemma store_afterLoad: "store afterLoad = store sharedState"
  by (simp add: afterLoad_def loadUserLists_def sharedState_def stringifyEmpty_def
      getUserListsKey_def LISTS_PREFIX_def Let_def)

lemma cache_afterLoad:
  "cache afterLoad = [''2_{}'' \<mapsto> [enrichList MOCK_USERS groceries ''2'']]"
  by (simp add: afterLoad_def loadUserLists_def sharedState_def stringifyEmpty_def
      getUserListsKey_def LISTS_PREFIX_def Let_def sharedWithUser_def MOCK_USERS_def
      groceries_def filterLists_def noFilter_def)

lemma store_afterDelete:
  "store afterDelete = [getUserListsKey ''1'' \<mapsto> [], getUserListsKey ''2'' \<mapsto> []]"
  by (simp add: afterDelete_def deleteList_def getListsOrEmpty_def store_afterLoad sharedState_def
      groceries_def store_saveUserLists Let_def getUserListsKey_def LISTS_PREFIX_def fun_upd_twist)

lemma cache_afterDelete:
  "cache afterDelete ''2_{}'' = Some [enrichList MOCK_USERS groceries ''2'']"
  by (simp add: afterDelete_def deleteList_def getListsOrEmpty_def store_afterLoad sharedState_def
      groceries_def Let_def getUserListsKey_def LISTS_PREFIX_def
      saveUserLists_def clearCacheForSharedListUsers_def clearCache_def cache_afterLoad)

text \<open>A successful \<open>deleteList\<close> leaves no list with that id in the owner's collection.\<close>

lemma deleteList_removes:
  assumes "deleteList users st uid lid = (Inr u, st')"
  shows "lid \<notin> listId ` set (getListsOrEmpty st' uid)"
  using assms
  by (auto simp add: deleteList_def Let_def getListsOrEmpty_saveUserLists
      split: option.splits if_splits)

text \<open>
  C5. After the owner deletes a list, \<open>loadUserLists\<close> omits it for the owner and for
  every former collaborator. \<open>saveUserLists\<close> clears the cache of the writer and of the
  collaborators of the lists it is given, and \<open>deleteList\<close> gives it the collection
  without the deleted list: the cache of a user who collaborated on the deleted list only
  is kept. User 2 has loaded her lists; user 1 deletes the shared list; the next load of
  user 1 is empty, the next load of user 2 still returns the list.
\<close>

theorem C5_stale_cache_after_delete:
  "fst (loadUserLists stringifyEmpty MOCK_USERS exampleGen 2500 sharedState ''2'' noFilter)
     = Inr [enrichList MOCK_USERS groceries ''2'']
   \<and> fst (deleteList MOCK_USERS afterLoad ''1'' ''L1'') = Inr ()
   \<and> getListsOrEmpty afterDelete ''1'' = []
   \<and> fst (loadUserLists stringifyEmpty MOCK_USERS exampleGen 4000 afterDelete ''1'' noFilter) = Inr []
   \<and> fst (loadUserLists stringifyEmpty MOCK_USERS exampleGen 4000 afterDelete ''2'' noFilter)
       = Inr [enrichList MOCK_USERS groceries ''2'']
   \<and> listId (enrichList MOCK_USERS groceries ''2'') = ''L1''"
proof -
  have a: "fst (loadUserLists stringifyEmpty MOCK_USERS exampleGen 2500 sharedState ''2'' noFilter)
     = Inr [enrichList MOCK_USERS groceries ''2'']"
    by (simp add: loadUserLists_def sharedState_def stringifyEmpty_def
      getUserListsKey_def LISTS_PREFIX_def Let_def sharedWithUser_def MOCK_USERS_def
      groceries_def filterLists_def noFilter_def)
  have b: "fst (deleteList MOCK_USERS afterLoad ''1'' ''L1'') = Inr ()"
    by (simp add: deleteList_def getListsOrEmpty_def store_afterLoad sharedState_def
      groceries_def Let_def getUserListsKey_def LISTS_PREFIX_def)
  have c: "getListsOrEmpty afterDelete ''1'' = []"
    by (simp add: getListsOrEmpty_def store_afterDelete getUserListsKey_def LISTS_PREFIX_def)
  have k: "cache afterDelete ''1_{}'' = None"
    by (simp add: afterDelete_def deleteList_def getListsOrEmpty_def store_afterLoad sharedState_def
      groceries_def Let_def getUserListsKey_def LISTS_PREFIX_def
      saveUserLists_def clearCacheForSharedListUsers_def clearCache_def cache_afterLoad)
  have d: "fst (loadUserLists stringifyEmpty MOCK_USERS exampleGen 4000 afterDelete ''1'' noFilter) = Inr []"
    by (simp add: loadUserLists_def k stringifyEmpty_def store_afterDelete Let_def sharedWithUser_def
        MOCK_USERS_def getUserListsKey_def LISTS_PREFIX_def filterLists_def noFilter_def)
  have e: "fst (loadUserLists stringifyEmpty MOCK_USERS exampleGen 4000 afterDelete ''2'' noFilter)
       = Inr [enrichList MOCK_USERS groceries ''2'']"
    by (simp add: loadUserLists_def stringifyEmpty_def cache_afterDelete)
  have f: "listId (enrichList MOCK_USERS groceries ''2'') = ''L1''"
    by (simp add: enrichList_def groceries_def ListT.extend_def Let_def)
  from a b c d e f show ?thesis by simp
qed

section \<open>The order of the lookup\<close>

lemma findIndex_filter:
  "findIndex P xs = Some i \<Longrightarrow> \<exists>ys. filter P xs = (xs ! i) # ys"
proof (induction xs arbitrary: i)
  case Nil
  then show ?case by simp
next
  case (Cons x xs)
  then show ?case by (cases "P x") auto
qed

lemma findIndex_None_filter: "findIndex P xs = None \<Longrightarrow> filter P xs = []"
  by (simp add: findIndex_None filter_empty_conv)

lemma searchSharedLists_spec:
  "map_option (\<lambda>d. (foundList d, foundOwnerId d)) (searchSharedLists st uid lid e us)
     = firstOf (sharedMatches st uid lid e us)"
proof (induction us)
  case Nil
  then show ?case by (simp add: firstOf_def sharedMatches_def)
next
  case (Cons u us)
  let ?P = "\<lambda>l. listId l = lid \<and> e \<in> set (sharedWith l)"
  show ?case
  proof (cases "userId u \<noteq> uid")
    case False
    with Cons show ?thesis by (simp add: sharedMatches_def)
  next
    case True
    show ?thesis
    proof (cases "findIndex ?P (getListsOrEmpty st (userId u))")
      case None
      from findIndex_None_filter[OF None] True None Cons show ?thesis
        by (simp add: sharedMatches_def Let_def)
    next
      case (Some i)
      from findIndex_filter[OF Some] obtain ys where
        "filter ?P (getListsOrEmpty st (userId u)) = (getListsOrEmpty st (userId u) ! i) # ys" ..
      with True Some show ?thesis
        by (simp add: sharedMatches_def Let_def firstOf_def)
    qed
  qed
qed

lemma findListById_owner:
  assumes "findListById users st uid lid = Some d"
  shows "foundOwnerId d \<in> set (uid # map userId users)"
proof (cases "findIndex (\<lambda>l. listId l = lid) (getListsOrEmpty st uid)")
  case (Some i)
  with assms show ?thesis by (auto simp add: findListById_def Let_def)
next
  case None
  with assms obtain e where "searchSharedLists st uid lid e users = Some d"
    by (auto simp add: findListById_def Let_def split: option.splits)
  from searchSharedLists_Some[OF this] show ?thesis by auto
qed

lemma distinct_concat_owner:
  assumes "distinct (concat (map f us))" and "a \<in> set us" and "b \<in> set us"
    and "x \<in> set (f a)" and "x \<in> set (f b)"
  shows "a = b"
  using assms by (induction us) auto

lemma allListIds_unique:
  assumes dis: "distinct (allListIds st us)"
    and a: "a \<in> set us" and b: "b \<in> set us"
    and la: "l \<in> set (getListsOrEmpty st a)" and lb: "l' \<in> set (getListsOrEmpty st b)"
    and same: "listId l = listId l'"
  shows "a = b \<and> l = l'"
proof -
  have da: "distinct (map listId (getListsOrEmpty st a))"
    using dis a by (induction us) (auto simp add: allListIds_def)
  from la have "listId l \<in> set (map listId (getListsOrEmpty st a))" by simp
  moreover from lb same have "listId l \<in> set (map listId (getListsOrEmpty st b))" by force
  ultimately have ab: "a = b"
    using distinct_concat_owner[of "\<lambda>u. map listId (getListsOrEmpty st u)" us a b "listId l"]
      dis a b by (simp add: allListIds_def)
  from da have "inj_on listId (set (getListsOrEmpty st a))" by (simp add: distinct_map)
  with la lb same ab have "l = l'" by (auto dest: inj_onD)
  with ab show ?thesis by simp
qed

text \<open>
  C4. \<open>findListById\<close> resolves a list id as the specification words it
  (\<open>findListById_spec\<close>): the requester's own collection first, with the requester as
  owner; otherwise the first list with that id shared with the requester's email among the
  other known users, in the order of the directory, with that user as owner; otherwise
  nothing. The record returned is the one stored at the returned index of the owner's
  collection. When list ids are unique over the stored collections, any two requesters
  who can resolve an id get the same list under the same owner. Known users have a
  non-empty email (\<open>signUp\<close> validates it).
\<close>

theorem C4_findListById_order:
  assumes "\<forall>u\<in>set users. email u \<noteq> []"
  shows "map_option (\<lambda>d. (foundList d, foundOwnerId d)) (findListById users st uid lid)
           = findListById_spec users st uid lid
         \<and> (\<forall>d. findListById users st uid lid = Some d \<longrightarrow>
                ownerLists d = getListsOrEmpty st (foundOwnerId d)
                \<and> listIndex d < length (ownerLists d)
                \<and> ownerLists d ! listIndex d = foundList d)
         \<and> (\<forall>other d d'.
                distinct (allListIds st (remdups (uid # other # map userId users)))
                \<and> findListById users st uid lid = Some d
                \<and> findListById users st other lid = Some d'
                \<longrightarrow> foundOwnerId d' = foundOwnerId d \<and> foundList d' = foundList d)"
proof (intro conjI allI impI)
  show "map_option (\<lambda>d. (foundList d, foundOwnerId d)) (findListById users st uid lid)
           = findListById_spec users st uid lid"
  proof (cases "findIndex (\<lambda>l. listId l = lid) (getListsOrEmpty st uid)")
    case (Some i)
    then show ?thesis
      by (simp add: findListById_def findListById_spec_def
          findIndex_find[of "\<lambda>l. listId l = lid"] Let_def)
  next
    case None
    then have own: "find (\<lambda>l. listId l = lid) (getListsOrEmpty st uid) = None"
      by (simp add: findIndex_find[of "\<lambda>l. listId l = lid"])
    show ?thesis
    proof (cases "find (\<lambda>u. userId u = uid) users")
      case n: None
      with None own show ?thesis
        by (simp add: findListById_def findListById_spec_def getCurrentUserEmail_def Let_def)
    next
      case (Some requester)
      then have "requester \<in> set users" by (auto simp add: find_Some_iff)
      with assms have "email requester \<noteq> []" by simp
      with None own Some show ?thesis
        by (simp add: findListById_def findListById_spec_def
            getCurrentUserEmail_def Let_def searchSharedLists_spec)
    qed
  qed
next
  fix d assume "findListById users st uid lid = Some d"
  from findListById_Some[OF this]
  show "ownerLists d = getListsOrEmpty st (foundOwnerId d)"
    and "listIndex d < length (ownerLists d)"
    and "ownerLists d ! listIndex d = foundList d" by auto
next
  fix other d d'
  assume h: "distinct (allListIds st (remdups (uid # other # map userId users)))
                \<and> findListById users st uid lid = Some d
                \<and> findListById users st other lid = Some d'"
  let ?us = "remdups (uid # other # map userId users)"
  from h have f: "findListById users st uid lid = Some d"
    and f': "findListById users st other lid = Some d'"
    and dis: "distinct (allListIds st ?us)" by simp_all
  from findListById_Some[OF f] have m: "foundList d \<in> set (getListsOrEmpty st (foundOwnerId d))"
    and i: "listId (foundList d) = lid" by auto
  from findListById_Some[OF f'] have m': "foundList d' \<in> set (getListsOrEmpty st (foundOwnerId d'))"
    and i': "listId (foundList d') = lid" by auto
  from findListById_owner[OF f] have o: "foundOwnerId d \<in> set ?us" by auto
  from findListById_owner[OF f'] have o': "foundOwnerId d' \<in> set ?us" by auto
  from allListIds_unique[OF dis o' o m' m] i i'
  show "foundOwnerId d' = foundOwnerId d" and "foundList d' = foundList d" by simp_all
qed

theorem C4_findListById_order_witness:
  "list_all (\<lambda>u. email u \<noteq> []) MOCK_USERS
   \<and> distinct (allListIds sharedState (remdups (''2'' # ''1'' # map userId MOCK_USERS)))
   \<and> findListById MOCK_USERS sharedState ''2'' ''L1''
       = Some \<lparr>foundList = groceries, foundOwnerId = ''1'', listIndex = 0, ownerLists = [groceries]\<rparr>
   \<and> findListById MOCK_USERS sharedState ''1'' ''L1''
       = Some \<lparr>foundList = groceries, foundOwnerId = ''1'', listIndex = 0, ownerLists = [groceries]\<rparr>
   \<and> findListById_spec MOCK_USERS sharedState ''2'' ''L1'' = Some (groceries, ''1'')
   \<and> findListById_spec MOCK_USERS sharedState ''3'' ''L1'' = None"
proof -
  have h: "\<forall>u\<in>set MOCK_USERS. email u \<noteq> []" by (simp add: MOCK_USERS_def)
  have d: "distinct (allListIds sharedState (remdups (''2'' # ''1'' # map userId MOCK_USERS)))"
    by (simp add: allListIds_def example_defs)
  have a: "findListById MOCK_USERS sharedState ''2'' ''L1''
       = Some \<lparr>foundList = groceries, foundOwnerId = ''1'', listIndex = 0, ownerLists = [groceries]\<rparr>"
    by (simp add: findListById_def getCurrentUserEmail_def example_defs Let_def)
  have b: "findListById MOCK_USERS sharedState ''1'' ''L1''
       = Some \<lparr>foundList = groceries, foundOwnerId = ''1'', listIndex = 0, ownerLists = [groceries]\<rparr>"
    by (simp add: findListById_def getCurrentUserEmail_def example_defs Let_def)
  have c: "findListById MOCK_USERS sharedState ''3'' ''L1'' = None"
    by (simp add: findListById_def getCurrentUserEmail_def example_defs Let_def)
  from C4_findListById_order[OF h, of sharedState "''2''" "''L1''"] a
  have s2: "findListById_spec MOCK_USERS sharedState ''2'' ''L1'' = Some (groceries, ''1'')" by simp
  from C4_findListById_order[OF h, of sharedState "''3''" "''L1''"] c
  have s3: "findListById_spec MOCK_USERS sharedState ''3'' ''L1'' = None" by simp
  from h d a b s2 s3 show ?thesis by (simp add: list_all_iff)
qed

section \<open>Lockout\<close>

text \<open>One call of \<open>signIn\<close>: an ill-formed input and a locked email leave the state as it
  is; otherwise the attempt is appended and the last ten attempts are kept.\<close>

lemmas auth_defs = signIn_def validationSchemas_login_def validators_email_def validators_password_def
  isValidEmail_def emailRegex_def isValidPassword_def trim_def isSpace_def errs_def
  MAX_EMAIL_LENGTH_def MIN_PASSWORD_LENGTH_def MAX_PASSWORD_LENGTH_def
  isUserLockedOut_def attemptsOf_def recordLoginAttempt_def maxAttempts_def lockoutDuration_def
  generateToken_def Let_def

lemma login_valid_right: "validationSchemas_login ''user@example.com'' ''password123'' = []"
  by (simp add: auth_defs)

lemma login_valid_wrong: "validationSchemas_login ''user@example.com'' ''wrongpass'' = []"
  by (simp add: auth_defs)

lemma login_valid_anna: "validationSchemas_login ''anna@example.com'' ''password123'' = []"
  by (simp add: auth_defs)

lemma login_invalid_short: "validationSchemas_login ''user@example.com'' ''x'' = [PASSWORD_TOO_SHORT]"
  by (simp add: auth_defs)

lemma takeLast_short: "length xs \<le> n \<Longrightarrow> takeLast n xs = xs"
  by (simp add: takeLast_def)

lemma length_takeLast: "length (takeLast n xs) \<le> n"
  by (simp add: takeLast_def)

lemma takeLast_takeLast_append: "takeLast n (takeLast n xs @ ys) = takeLast n (xs @ ys)"
proof (cases "length xs \<le> n")
  case True
  then show ?thesis by (simp add: takeLast_def)
next
  case False
  then have "length xs - n + length ys = length xs + length ys - n" by simp
  with False show ?thesis
    by (simp add: takeLast_def drop_append add.commute)
qed

lemma isUserLockedOut_recentFailures:
  "isUserLockedOut st now e \<longleftrightarrow> 5 \<le> length (recentFailures st now e)"
  by (simp add: isUserLockedOut_def recentFailures_def maxAttempts_def lockoutDuration_def)

lemma recordLoginAttempt_takeLast:
  "recordLoginAttempt now e ok st
     = st\<lparr>loginAttempts := (loginAttempts st)(e \<mapsto>
            takeLast 10 (attemptsOf st e
               @ [\<lparr>attemptEmail = e, attemptTimestamp = now, attemptSuccess = ok\<rparr>]))\<rparr>"
  by (simp add: recordLoginAttempt_def takeLast_def Let_def)

lemma signIn_invalid:
  "validationSchemas_login e pw = err # errs' \<Longrightarrow> signIn users now st e pw = (Inl err, st)"
  by (simp add: signIn_def)

lemma signIn_locked:
  assumes "5 \<le> length (recentFailures st now e)"
  shows "signIn users now st e pw
           = (Inl (case validationSchemas_login e pw of [] \<Rightarrow> LockedOut | err # _ \<Rightarrow> err), st)"
  using assms by (simp add: signIn_def isUserLockedOut_recentFailures split: list.splits)

lemma signIn_wrong:
  assumes "length (recentFailures st now e) < 5" and "validationSchemas_login e pw = []"
    and "find (\<lambda>u. email u = e \<and> password u = pw) users = None"
  shows "signIn users now st e pw
           = (Inl INVALID_CREDENTIALS,
              st\<lparr>loginAttempts := (loginAttempts st)(e \<mapsto>
                   takeLast 10 (attemptsOf st e
                      @ [\<lparr>attemptEmail = e, attemptTimestamp = now, attemptSuccess = False\<rparr>]))\<rparr>)"
  using assms
  by (simp add: signIn_def isUserLockedOut_recentFailures recordLoginAttempt_takeLast)

lemma signIn_right:
  assumes "length (recentFailures st now e) < 5" and "validationSchemas_login e pw = []"
    and "find (\<lambda>u. email u = e \<and> password u = pw) users = Some u"
  shows "signIn users now st e pw
           = (Inr (u, Token (userId u) now (now + 86400000)),
              st\<lparr>session := Some (Token (userId u) now (now + 86400000),
                                    \<lparr>sessionToken = Token (userId u) now (now + 86400000),
                                     sessionUser = u, expiresAt = now + 86400000,
                                     sessionLastActivity = now\<rparr>),
                 loginAttempts := (loginAttempts st)(e \<mapsto>
                   takeLast 10 (attemptsOf st e
                      @ [\<lparr>attemptEmail = e, attemptTimestamp = now, attemptSuccess = True\<rparr>]))\<rparr>)"
  using assms
  by (simp add: signIn_def isUserLockedOut_recentFailures recordLoginAttempt_takeLast
      generateToken_def attemptsOf_def Let_def)

text \<open>Runs of calls: what is recorded for an email, and that a lock outlasts every call
  made while it holds.\<close>

lemma attemptsOf_signIn_other:
  "e' \<noteq> e \<Longrightarrow> attemptsOf (snd (signIn users t st e' p)) e = attemptsOf st e"
  by (simp add: signIn_def recordLoginAttempt_def attemptsOf_def Let_def
      split: list.splits option.splits)

lemma attemptsOf_signIn_same:
  "attemptsOf (snd (signIn users t st e p)) e
     = (if validationSchemas_login e p = [] \<and> length (recentFailures st t e) < 5
        then takeLast 10 (attemptsOf st e
               @ [\<lparr>attemptEmail = e, attemptTimestamp = t,
                    attemptSuccess = list_ex (\<lambda>u. email u = e \<and> password u = p) users\<rparr>])
        else attemptsOf st e)"
proof (cases "validationSchemas_login e p")
  case (Cons err errs')
  then show ?thesis by (simp add: signIn_invalid)
next
  case Nil
  show ?thesis
  proof (cases "length (recentFailures st t e) < 5")
    case False
    then have "5 \<le> length (recentFailures st t e)" by simp
    from signIn_locked[OF this] False Nil show ?thesis by simp
  next
    case True
    show ?thesis
    proof (cases "find (\<lambda>u. email u = e \<and> password u = p) users")
      case None
      then have "\<not> list_ex (\<lambda>u. email u = e \<and> password u = p) users"
        by (simp add: find_None_iff list_ex_iff)
      with signIn_wrong[OF True Nil None] True Nil show ?thesis
        by (simp add: attemptsOf_def)
    next
      case (Some u)
      then have "list_ex (\<lambda>u. email u = e \<and> password u = p) users"
        by (auto simp add: find_Some_iff list_ex_iff)
      with signIn_right[OF True Nil Some] True Nil show ?thesis
        by (simp add: attemptsOf_def)
    qed
  qed
qed

lemma recorded_attempts:
  assumes "length (attemptsOf st e) \<le> 10"
  shows "attemptsOf (snd (signInRun users calls st)) e
           = takeLast 10 (attemptsOf st e @ acceptedAttempts users calls st e)"
  using assms
proof (induction calls arbitrary: st)
  case Nil
  then show ?case by (simp add: takeLast_short)
next
  case (Cons c calls)
  obtain t e' p where c: "c = (t, e', p)" by (cases c) auto
  let ?st' = "snd (signIn users t st e' p)"
  let ?a = "\<lparr>attemptEmail = e, attemptTimestamp = t,
             attemptSuccess = list_ex (\<lambda>u. email u = e \<and> password u = p) users\<rparr>"
  have run: "snd (signInRun users (c # calls) st) = snd (signInRun users calls ?st')"
    unfolding c by (simp split: prod.splits)
  show ?case
  proof (cases "e' = e \<and> validationSchemas_login e' p = [] \<and> length (recentFailures st t e') < 5")
    case True
    then have eq: "e' = e" and ok: "validationSchemas_login e p = []"
      "length (recentFailures st t e) < 5" by auto
    have acc: "acceptedAttempts users (c # calls) st e = ?a # acceptedAttempts users calls ?st' e"
      unfolding c eq using ok by simp
    have st': "attemptsOf ?st' e = takeLast 10 (attemptsOf st e @ [?a])"
      unfolding eq using ok by (simp add: attemptsOf_signIn_same)
    then have "length (attemptsOf ?st' e) \<le> 10" by (simp add: length_takeLast)
    from Cons.IH[OF this]
    have "attemptsOf (snd (signInRun users calls ?st')) e
            = takeLast 10 (takeLast 10 (attemptsOf st e @ [?a]) @ acceptedAttempts users calls ?st' e)"
      by (simp only: st')
    then show ?thesis
      by (simp only: run acc takeLast_takeLast_append append_assoc append_Cons append_Nil)
  next
    case False
    then have acc: "acceptedAttempts users (c # calls) st e = acceptedAttempts users calls ?st' e"
      unfolding c by simp
    have st': "attemptsOf ?st' e = attemptsOf st e"
    proof (cases "e' = e")
      case True
      with False have "\<not> (validationSchemas_login e p = [] \<and> length (recentFailures st t e) < 5)"
        by simp
      then show ?thesis unfolding True by (simp only: attemptsOf_signIn_same if_False)
    next
      case other: False
      then show ?thesis by (simp add: attemptsOf_signIn_other)
    qed
    with Cons.prems have "length (attemptsOf ?st' e) \<le> 10" by simp
    from Cons.IH[OF this] show ?thesis
      by (simp only: run acc st')
  qed
qed

lemma length_filter_mono:
  "(\<And>x. x \<in> set xs \<Longrightarrow> P x \<Longrightarrow> Q x) \<Longrightarrow> length (filter P xs) \<le> length (filter Q xs)"
  by (induction xs) auto

lemma recentFailures_mono:
  "t \<le> T \<Longrightarrow> length (recentFailures st T e) \<le> length (recentFailures st t e)"
  unfolding recentFailures_def by (rule length_filter_mono) auto

lemma recentFailures_cong:
  "attemptsOf st' e = attemptsOf st e \<Longrightarrow> recentFailures st' t e = recentFailures st t e"
  by (simp add: recentFailures_def)

lemma lock_persists:
  assumes "5 \<le> length (recentFailures st T e)" and "\<forall>c\<in>set calls. fst c \<le> T"
  shows "attemptsOf (snd (signInRun users calls st)) e = attemptsOf st e
         \<and> list_all (\<lambda>(c, ok). fst (snd c) = e \<longrightarrow> \<not> ok)
                    (zip calls (fst (signInRun users calls st)))"
  using assms
proof (induction calls arbitrary: st)
  case Nil
  then show ?case by simp
next
  case (Cons c calls)
  obtain t e' p where c: "c = (t, e', p)" by (cases c) auto
  let ?r = "fst (signIn users t st e' p)"
  let ?st' = "snd (signIn users t st e' p)"
  from Cons.prems(2) c have tT: "t \<le> T" and rest: "\<forall>c\<in>set calls. fst c \<le> T" by auto
  have run: "signInRun users (c # calls) st
               = ((\<not> isl ?r) # fst (signInRun users calls ?st'), snd (signInRun users calls ?st'))"
    unfolding c by (simp split: prod.splits)
  from recentFailures_mono[OF tT, of st e] Cons.prems(1)
  have locked: "5 \<le> length (recentFailures st t e)" by simp
  have same: "attemptsOf ?st' e = attemptsOf st e"
  proof (cases "e' = e")
    case True
    from signIn_locked[OF locked, of users p] show ?thesis unfolding True by simp
  next
    case False
    then show ?thesis by (simp add: attemptsOf_signIn_other)
  qed
  have fails: "fst (snd c) = e \<longrightarrow> isl ?r"
  proof
    assume "fst (snd c) = e"
    with c have True: "e' = e" by simp
    from signIn_locked[OF locked, of users p] show "isl ?r" unfolding True by simp
  qed
  from Cons.prems(1) recentFailures_cong[OF same, of T]
  have "5 \<le> length (recentFailures ?st' T e)" by simp
  from Cons.IH[OF this rest] have
    ih1: "attemptsOf (snd (signInRun users calls ?st')) e = attemptsOf ?st' e" and
    ih2: "list_all (\<lambda>(c, ok). fst (snd c) = e \<longrightarrow> \<not> ok)
                   (zip calls (fst (signInRun users calls ?st')))" by simp_all
  from ih1 ih2 same fails show ?case
    unfolding run by simp
qed

text \<open>
  C9 (as amended). For every email and every run of \<open>signIn\<close> calls from the initial state,
  the attempts recorded for the email are the last ten of its attempts that passed the
  input validation and were not refused by the lockout, successful ones included. Once at
  least five of the recorded attempts are failed attempts less than fifteen minutes old,
  every further \<open>signIn\<close> for that email fails whatever the password (with the lockout
  error, or with the validation error of an ill-formed input) and records nothing, for as
  long as five of them are less than fifteen minutes old. When fewer are, a \<open>signIn\<close> with
  well-formed and correct credentials succeeds, stores the session and is recorded as a
  success, and one with well-formed but wrong credentials fails and is recorded as a
  failure. An ill-formed input fails with its first validation error and changes nothing.
\<close>

theorem C9_lockout:
  "attemptsOf (snd (signInRun users calls initialAuthState)) e
     = takeLast 10 (acceptedAttempts users calls initialAuthState e)
   \<and> (5 \<le> length (recentFailures st T e) \<and> (\<forall>c\<in>set further. fst c \<le> T)
        \<longrightarrow> attemptsOf (snd (signInRun users further st)) e = attemptsOf st e
            \<and> list_all (\<lambda>(c, ok). fst (snd c) = e \<longrightarrow> \<not> ok)
                       (zip further (fst (signInRun users further st))))
   \<and> (5 \<le> length (recentFailures st now e)
        \<longrightarrow> signIn users now st e pw
              = (Inl (case validationSchemas_login e pw of [] \<Rightarrow> LockedOut | err # _ \<Rightarrow> err), st))
   \<and> (validationSchemas_login e pw = err # errs'
        \<longrightarrow> signIn users now st e pw = (Inl err, st))
   \<and> (length (recentFailures st now e) < 5 \<and> validationSchemas_login e pw = []
        \<and> find (\<lambda>u. email u = e \<and> password u = pw) users = Some u
        \<longrightarrow> signIn users now st e pw
              = (Inr (u, Token (userId u) now (now + 86400000)),
                 st\<lparr>session := Some (Token (userId u) now (now + 86400000),
                                       \<lparr>sessionToken = Token (userId u) now (now + 86400000),
                                        sessionUser = u, expiresAt = now + 86400000,
                                        sessionLastActivity = now\<rparr>),
                    loginAttempts := (loginAttempts st)(e \<mapsto>
                      takeLast 10 (attemptsOf st e
                         @ [\<lparr>attemptEmail = e, attemptTimestamp = now, attemptSuccess = True\<rparr>]))\<rparr>))
   \<and> (length (recentFailures st now e) < 5 \<and> validationSchemas_login e pw = []
        \<and> find (\<lambda>u. email u = e \<and> password u = pw) users = None
        \<longrightarrow> signIn users now st e pw
              = (Inl INVALID_CREDENTIALS,
                 st\<lparr>loginAttempts := (loginAttempts st)(e \<mapsto>
                      takeLast 10 (attemptsOf st e
                         @ [\<lparr>attemptEmail = e, attemptTimestamp = now, attemptSuccess = False\<rparr>]))\<rparr>))"
proof (intro conjI impI)
  have "length (attemptsOf initialAuthState e) \<le> 10"
    by (simp add: attemptsOf_def initialAuthState_def)
  from recorded_attempts[OF this, of users calls]
  show "attemptsOf (snd (signInRun users calls initialAuthState)) e
          = takeLast 10 (acceptedAttempts users calls initialAuthState e)"
    by (simp add: attemptsOf_def initialAuthState_def)
next
  assume h: "5 \<le> length (recentFailures st T e) \<and> (\<forall>c\<in>set further. fst c \<le> T)"
  then have a: "5 \<le> length (recentFailures st T e)" and b: "\<forall>c\<in>set further. fst c \<le> T"
    by simp_all
  from lock_persists[OF a b, of users]
  show "attemptsOf (snd (signInRun users further st)) e = attemptsOf st e"
    and "list_all (\<lambda>(c, ok). fst (snd c) = e \<longrightarrow> \<not> ok)
                  (zip further (fst (signInRun users further st)))" by simp_all
next
  assume "5 \<le> length (recentFailures st now e)"
  then show "signIn users now st e pw
              = (Inl (case validationSchemas_login e pw of [] \<Rightarrow> LockedOut | err # _ \<Rightarrow> err), st)"
    by (rule signIn_locked)
next
  assume "validationSchemas_login e pw = err # errs'"
  then show "signIn users now st e pw = (Inl err, st)" by (rule signIn_invalid)
next
  assume "length (recentFailures st now e) < 5 \<and> validationSchemas_login e pw = []
        \<and> find (\<lambda>u. email u = e \<and> password u = pw) users = Some u"
  then show "signIn users now st e pw
              = (Inr (u, Token (userId u) now (now + 86400000)),
                 st\<lparr>session := Some (Token (userId u) now (now + 86400000),
                                       \<lparr>sessionToken = Token (userId u) now (now + 86400000),
                                        sessionUser = u, expiresAt = now + 86400000,
                                        sessionLastActivity = now\<rparr>),
                    loginAttempts := (loginAttempts st)(e \<mapsto>
                      takeLast 10 (attemptsOf st e
                         @ [\<lparr>attemptEmail = e, attemptTimestamp = now, attemptSuccess = True\<rparr>]))\<rparr>)"
    by (intro signIn_right) simp_all
next
  assume "length (recentFailures st now e) < 5 \<and> validationSchemas_login e pw = []
        \<and> find (\<lambda>u. email u = e \<and> password u = pw) users = None"
  then show "signIn users now st e pw
              = (Inl INVALID_CREDENTIALS,
                 st\<lparr>loginAttempts := (loginAttempts st)(e \<mapsto>
                      takeLast 10 (attemptsOf st e
                         @ [\<lparr>attemptEmail = e, attemptTimestamp = now, attemptSuccess = False\<rparr>]))\<rparr>)"
    by (intro signIn_wrong) simp_all
qed

lemma accepted_five:
  "acceptedAttempts MOCK_USERS fiveFailures initialAuthState ''user@example.com''
     = map (\<lambda>t. \<lparr>attemptEmail = ''user@example.com'', attemptTimestamp = t, attemptSuccess = False\<rparr>)
           [1000, 2000, 3000, 4000, 5000]"
  by (simp add: fiveFailures_def initialAuthState_def signIn_def login_valid_wrong
      recentFailures_def isUserLockedOut_def attemptsOf_def recordLoginAttempt_def maxAttempts_def
      lockoutDuration_def MOCK_USERS_def Let_def)

theorem C9_lockout_witness:
  "attemptsOf lockedState ''user@example.com''
     = map (\<lambda>t. \<lparr>attemptEmail = ''user@example.com'', attemptTimestamp = t, attemptSuccess = False\<rparr>)
           [1000, 2000, 3000, 4000, 5000]
   \<and> attemptsOf (snd (signInRun MOCK_USERS furtherCalls lockedState)) ''user@example.com''
       = attemptsOf lockedState ''user@example.com''
   \<and> list_all (\<lambda>(c, ok). fst (snd c) \<noteq> ''user@example.com'' \<or> \<not> ok)
              (zip furtherCalls (fst (signInRun MOCK_USERS furtherCalls lockedState)))
   \<and> signIn MOCK_USERS 6000 lockedState ''user@example.com'' ''password123''
       = (Inl LockedOut, lockedState)
   \<and> signIn MOCK_USERS 6000 lockedState ''user@example.com'' ''x''
       = (Inl PASSWORD_TOO_SHORT, lockedState)
   \<and> fst (signIn MOCK_USERS 901000 lockedState ''user@example.com'' ''password123'')
       = Inr (MOCK_USERS ! 0, Token ''1'' 901000 87301000)
   \<and> attemptsOf (snd (signIn MOCK_USERS 901000 lockedState ''user@example.com'' ''password123''))
                 ''user@example.com''
       = attemptsOf lockedState ''user@example.com''
         @ [\<lparr>attemptEmail = ''user@example.com'', attemptTimestamp = 901000, attemptSuccess = True\<rparr>]"
proof -
  let ?e = "''user@example.com''"
  have c1: "attemptsOf (snd (signInRun MOCK_USERS fiveFailures initialAuthState)) ?e
              = takeLast 10 (acceptedAttempts MOCK_USERS fiveFailures initialAuthState ?e)"
    by (rule C9_lockout[THEN conjunct1])
  have log: "attemptsOf lockedState ?e
     = map (\<lambda>t. \<lparr>attemptEmail = ?e, attemptTimestamp = t, attemptSuccess = False\<rparr>)
           [1000, 2000, 3000, 4000, 5000]"
    unfolding lockedState_def c1 accepted_five by (simp add: takeLast_def)
  have locked9: "5 \<le> length (recentFailures lockedState 9000 ?e)"
    by (simp add: recentFailures_def log)
  have times: "\<forall>c\<in>set furtherCalls. fst c \<le> 9000" by (simp add: furtherCalls_def)
  have c2: "5 \<le> length (recentFailures lockedState 9000 ?e) \<and> (\<forall>c\<in>set furtherCalls. fst c \<le> 9000)
        \<longrightarrow> attemptsOf (snd (signInRun MOCK_USERS furtherCalls lockedState)) ?e
              = attemptsOf lockedState ?e
            \<and> list_all (\<lambda>(c, ok). fst (snd c) = ?e \<longrightarrow> \<not> ok)
                       (zip furtherCalls (fst (signInRun MOCK_USERS furtherCalls lockedState)))"
    by (rule C9_lockout[THEN conjunct2, THEN conjunct1])
  note both = mp[OF c2 conjI[OF locked9 times]]
  have keep: "attemptsOf (snd (signInRun MOCK_USERS furtherCalls lockedState)) ?e
             = attemptsOf lockedState ?e"
    by (rule conjunct1[OF both])
  have fail: "list_all (\<lambda>(c, ok). fst (snd c) = ?e \<longrightarrow> \<not> ok)
                    (zip furtherCalls (fst (signInRun MOCK_USERS furtherCalls lockedState)))"
    by (rule conjunct2[OF both])
  from fail have fail': "list_all (\<lambda>(c, ok). fst (snd c) \<noteq> ?e \<or> \<not> ok)
                    (zip furtherCalls (fst (signInRun MOCK_USERS furtherCalls lockedState)))"
    unfolding list_all_iff by fastforce
  have locked6: "5 \<le> length (recentFailures lockedState 6000 ?e)"
    by (simp add: recentFailures_def log)
  have c3: "5 \<le> length (recentFailures lockedState 6000 ?e)
        \<longrightarrow> signIn MOCK_USERS 6000 lockedState ?e ''password123''
              = (Inl (case validationSchemas_login ?e ''password123'' of
                        [] \<Rightarrow> LockedOut | err # _ \<Rightarrow> err), lockedState)"
    by (rule C9_lockout[THEN conjunct2, THEN conjunct2, THEN conjunct1])
  from c3 locked6
  have r1: "signIn MOCK_USERS 6000 lockedState ?e ''password123'' = (Inl LockedOut, lockedState)"
    by (simp add: login_valid_right)
  have c4: "validationSchemas_login ?e ''x'' = PASSWORD_TOO_SHORT # []
        \<longrightarrow> signIn MOCK_USERS 6000 lockedState ?e ''x'' = (Inl PASSWORD_TOO_SHORT, lockedState)"
    by (rule C9_lockout[THEN conjunct2, THEN conjunct2, THEN conjunct2, THEN conjunct1])
  have r2: "signIn MOCK_USERS 6000 lockedState ?e ''x'' = (Inl PASSWORD_TOO_SHORT, lockedState)"
    by (rule mp[OF c4 login_invalid_short])
  have free: "length (recentFailures lockedState 901000 ?e) < 5"
    by (simp add: recentFailures_def log)
  have f: "find (\<lambda>u. email u = ?e \<and> password u = ''password123'') MOCK_USERS = Some (MOCK_USERS ! 0)"
    by (simp add: MOCK_USERS_def)
  have uid: "userId (MOCK_USERS ! 0) = ''1''" by (simp add: MOCK_USERS_def)
  have c5: "length (recentFailures lockedState 901000 ?e) < 5
        \<and> validationSchemas_login ?e ''password123'' = []
        \<and> find (\<lambda>u. email u = ?e \<and> password u = ''password123'') MOCK_USERS = Some (MOCK_USERS ! 0)
        \<longrightarrow> signIn MOCK_USERS 901000 lockedState ?e ''password123''
              = (Inr (MOCK_USERS ! 0, Token (userId (MOCK_USERS ! 0)) 901000 (901000 + 86400000)),
                 lockedState\<lparr>session := Some (Token (userId (MOCK_USERS ! 0)) 901000 (901000 + 86400000),
                                       \<lparr>sessionToken = Token (userId (MOCK_USERS ! 0)) 901000 (901000 + 86400000),
                                        sessionUser = MOCK_USERS ! 0, expiresAt = 901000 + 86400000,
                                        sessionLastActivity = 901000\<rparr>),
                    loginAttempts := (loginAttempts lockedState)(?e \<mapsto>
                      takeLast 10 (attemptsOf lockedState ?e
                         @ [\<lparr>attemptEmail = ?e, attemptTimestamp = 901000, attemptSuccess = True\<rparr>]))\<rparr>)"
    by (rule C9_lockout[THEN conjunct2, THEN conjunct2, THEN conjunct2, THEN conjunct2,
          THEN conjunct1])
  have r3: "signIn MOCK_USERS 901000 lockedState ?e ''password123''
              = (Inr (MOCK_USERS ! 0, Token (userId (MOCK_USERS ! 0)) 901000 (901000 + 86400000)),
                 lockedState\<lparr>session := Some (Token (userId (MOCK_USERS ! 0)) 901000 (901000 + 86400000),
                                       \<lparr>sessionToken = Token (userId (MOCK_USERS ! 0)) 901000 (901000 + 86400000),
                                        sessionUser = MOCK_USERS ! 0, expiresAt = 901000 + 86400000,
                                        sessionLastActivity = 901000\<rparr>),
                    loginAttempts := (loginAttempts lockedState)(?e \<mapsto>
                      takeLast 10 (attemptsOf lockedState ?e
                         @ [\<lparr>attemptEmail = ?e, attemptTimestamp = 901000, attemptSuccess = True\<rparr>]))\<rparr>)"
    by (rule mp[OF c5 conjI[OF free conjI[OF login_valid_right f]]])
  have r3a: "fst (signIn MOCK_USERS 901000 lockedState ?e ''password123'')
       = Inr (MOCK_USERS ! 0, Token ''1'' 901000 87301000)"
    unfolding r3 by (simp add: uid)
  have r3b: "attemptsOf (snd (signIn MOCK_USERS 901000 lockedState ?e ''password123'')) ?e
       = takeLast 10 (attemptsOf lockedState ?e
            @ [\<lparr>attemptEmail = ?e, attemptTimestamp = 901000, attemptSuccess = True\<rparr>])"
    unfolding r3 by (simp add: attemptsOf_def)
  have r3c: "attemptsOf (snd (signIn MOCK_USERS 901000 lockedState ?e ''password123'')) ?e
       = attemptsOf lockedState ?e
         @ [\<lparr>attemptEmail = ?e, attemptTimestamp = 901000, attemptSuccess = True\<rparr>]"
    unfolding r3b by (simp add: log takeLast_def)
  show ?thesis
    by (intro conjI) (rule log, rule keep, rule fail', rule r1, rule r2, rule r3a, rule r3c)
qed

text \<open>
  C9 as stated fails in two ways. First run: five attempts with a wrong password occur
  within sixteen seconds, the first four before and the fifth after ten successful
  sign-ins; the successes have pushed the first four failures out of the ten recorded
  attempts, and the sign-in that follows the fifth failure succeeds. Second run: five
  attempts with a wrong password occur within fifteen minutes, at 1 s, 896 s, 897 s, 898 s
  and 899 s; a sign-in with the right password is refused at 900.999 s and succeeds at
  901 s, two seconds after the most recent failed attempt.
\<close>

theorem C9_lockout_counterexample:
  "fst (signInRun MOCK_USERS lockoutCalls initialAuthState)
     = [False, False, False, False,
        True, True, True, True, True, True, True, True, True, True,
        False, True]
   \<and> fst (signInRun MOCK_USERS spreadCalls initialAuthState)
     = [False, False, False, False, False, False, True]"
  by (simp add: lockoutCalls_def spreadCalls_def initialAuthState_def signIn_def login_valid_right
      login_valid_wrong isUserLockedOut_def attemptsOf_def recordLoginAttempt_def maxAttempts_def
      lockoutDuration_def generateToken_def MOCK_USERS_def Let_def)

section \<open>Owner-keyed storage\<close>

text \<open>Every operation keeps the storage owner-keyed: a write goes to the collection of
  the resolved owner and stores lists whose owner is that user.\<close>

lemma ownerKeyed_store: "store st' = store st \<Longrightarrow> ownerKeyed st' = ownerKeyed st"
  by (simp add: ownerKeyed_def)

lemma ownerKeyed_mem:
  assumes "ownerKeyed st" and "l \<in> set (getListsOrEmpty st uid)"
  shows "ownerId l = uid"
proof (cases "store st (getUserListsKey uid)")
  case None
  with assms(2) show ?thesis by (simp add: getListsOrEmpty_def)
next
  case (Some ls)
  with assms(2) have "l \<in> set ls" by (simp add: getListsOrEmpty_def)
  with assms(1) Some show ?thesis unfolding ownerKeyed_def by blast
qed

lemma ownerKeyed_save:
  assumes "ownerKeyed st" and "\<forall>l\<in>set ls. ownerId l = uid"
  shows "ownerKeyed (saveUserLists users uid ls st)"
  using assms by (auto simp add: ownerKeyed_def store_saveUserLists getUserListsKey_inj)

lemma ownerKeyed_replace:
  assumes inv: "ownerKeyed st" and f: "findListById users st uid lid = Some d"
    and o: "ownerId l' = ownerId (foundList d)"
  shows "ownerKeyed (saveUserLists users (foundOwnerId d) ((ownerLists d)[listIndex d := l']) st)"
proof (rule ownerKeyed_save[OF inv], rule ballI)
  fix l assume l: "l \<in> set ((ownerLists d)[listIndex d := l'])"
  from findListById_Some[OF f] have
    a: "ownerLists d = getListsOrEmpty st (foundOwnerId d)" and
    b: "listIndex d < length (ownerLists d)" and
    c: "foundList d = ownerLists d ! listIndex d" by auto
  from b c have "foundList d \<in> set (ownerLists d)" by simp
  with a inv have fo: "ownerId (foundList d) = foundOwnerId d" by (simp add: ownerKeyed_mem)
  from l have "l = l' \<or> l \<in> set (ownerLists d)" by (auto dest: set_update_subset_insert[THEN subsetD])
  with a inv o fo show "ownerId l = foundOwnerId d" by (auto simp add: ownerKeyed_mem)
qed

lemma ownerKeyed_loadUserLists:
  assumes "ownerKeyed st"
  shows "ownerKeyed (snd (loadUserLists stringify users gen now st uid flt))"
proof (cases "cache st (uid @ ''_'' @ stringify flt)")
  case (Some cached)
  with assms show ?thesis by (simp add: loadUserLists_def Let_def)
next
  case None
  show ?thesis
  proof (cases "store st (getUserListsKey uid)")
    case s: (Some storedLists)
    with None assms show ?thesis
      by (simp add: loadUserLists_def Let_def ownerKeyed_def)
  next
    case n: None
    with None assms show ?thesis
      by (auto simp add: loadUserLists_def Let_def ownerKeyed_def sampleLists_def getUserListsKey_inj)
  qed
qed

lemma ownerKeyed_createList:
  assumes "ownerKeyed st"
  shows "ownerKeyed (snd (createList users gen now st uid payload))"
proof -
  have "ownerKeyed (saveUserLists users uid (l # getListsOrEmpty st uid) st)" if "ownerId l = uid" for l
    by (rule ownerKeyed_save[OF assms]) (use that assms in \<open>auto simp add: ownerKeyed_mem\<close>)
  with assms show ?thesis
    by (simp add: createList_def Let_def split: list.splits)
qed

lemma ownerKeyed_updateList:
  assumes "ownerKeyed st"
  shows "ownerKeyed (snd (updateList users now st uid lid updates))"
proof (cases "findListById users st uid lid")
  case None
  with assms show ?thesis by (simp add: updateList_def)
next
  case (Some d)
  have "ownerKeyed (saveUserLists users (foundOwnerId d) ((ownerLists d)[listIndex d := l']) st)"
    if "ownerId l' = ownerId (foundList d)" for l'
    by (rule ownerKeyed_replace[OF assms Some that])
  with Some assms show ?thesis
    by (simp add: updateList_def Let_def split: option.splits)
qed

lemma ownerKeyed_deleteList:
  assumes "ownerKeyed st"
  shows "ownerKeyed (snd (deleteList users st uid lid))"
proof -
  have "ownerKeyed (saveUserLists users uid (filter P (getListsOrEmpty st uid)) st)" for P
    by (rule ownerKeyed_save[OF assms]) (use assms in \<open>auto simp add: ownerKeyed_mem\<close>)
  with assms show ?thesis
    by (simp add: deleteList_def Let_def split: option.splits)
qed

lemma ownerKeyed_shareList:
  assumes "ownerKeyed st"
  shows "ownerKeyed (snd (shareList users now st uid payload))"
proof -
  have "ownerKeyed (clearCache t (saveUserLists users uid ((getListsOrEmpty st uid)[i := l']) st))"
    if "ownerId l' = uid" for l' i t
  proof -
    have "ownerKeyed (saveUserLists users uid ((getListsOrEmpty st uid)[i := l']) st)"
    proof (rule ownerKeyed_save[OF assms], rule ballI)
      fix l assume "l \<in> set ((getListsOrEmpty st uid)[i := l'])"
      then have "l = l' \<or> l \<in> set (getListsOrEmpty st uid)"
        by (auto dest: set_update_subset_insert[THEN subsetD])
      with that assms show "ownerId l = uid" by (auto simp add: ownerKeyed_mem)
    qed
    then show ?thesis by (simp add: ownerKeyed_store[OF store_clearCache])
  qed
  with assms show ?thesis
    by (simp add: shareList_def Let_def split: list.splits option.splits)
qed

lemma ownerKeyed_addTask:
  assumes "ownerKeyed st"
  shows "ownerKeyed (snd (addTask users newId now st uid payload))"
proof (cases "findListById users st uid (targetListId payload)")
  case None
  with assms show ?thesis by (simp add: addTask_def split: list.splits)
next
  case (Some d)
  have "ownerKeyed (saveUserLists users (foundOwnerId d) ((ownerLists d)[listIndex d := l']) st)"
    if "ownerId l' = ownerId (foundList d)" for l'
    by (rule ownerKeyed_replace[OF assms Some that])
  with Some assms show ?thesis
    by (simp add: addTask_def Let_def split: list.splits)
qed

lemma ownerKeyed_updateTask:
  assumes "ownerKeyed st"
  shows "ownerKeyed (snd (updateTask users now st uid lid tid updates))"
proof (cases "findListById users st uid lid")
  case None
  with assms show ?thesis by (simp add: updateTask_def)
next
  case (Some d)
  have "ownerKeyed (saveUserLists users (foundOwnerId d) ((ownerLists d)[listIndex d := l']) st)"
    if "ownerId l' = ownerId (foundList d)" for l'
    by (rule ownerKeyed_replace[OF assms Some that])
  with Some assms show ?thesis
    by (simp add: updateTask_def Let_def split: option.splits)
qed

lemma ownerKeyed_deleteTask:
  assumes "ownerKeyed st"
  shows "ownerKeyed (snd (deleteTask users now st uid lid tid))"
proof (cases "findListById users st uid lid")
  case None
  with assms show ?thesis by (simp add: deleteTask_def)
next
  case (Some d)
  have "ownerKeyed (saveUserLists users (foundOwnerId d) ((ownerLists d)[listIndex d := l']) st)"
    if "ownerId l' = ownerId (foundList d)" for l'
    by (rule ownerKeyed_replace[OF assms Some that])
  with Some assms show ?thesis
    by (simp add: deleteTask_def Let_def)
qed

lemma ownerKeyed_toggleTask:
  assumes "ownerKeyed st"
  shows "ownerKeyed (snd (toggleTask users now st uid lid tid))"
proof (cases "findListById users st uid lid")
  case None
  with assms show ?thesis by (simp add: toggleTask_def)
next
  case (Some d)
  have "ownerKeyed (saveUserLists users (foundOwnerId d) ((ownerLists d)[listIndex d := l']) st)"
    if "ownerId l' = ownerId (foundList d)" for l'
    by (rule ownerKeyed_replace[OF assms Some that])
  with Some assms show ?thesis
    by (simp add: toggleTask_def Let_def split: option.splits)
qed

lemma ownerKeyed_exec:
  "ownerKeyed st \<Longrightarrow> ownerKeyed (exec stringify users gen now st op)"
  by (cases op)
     (simp_all add: ownerKeyed_loadUserLists ownerKeyed_createList ownerKeyed_updateList
        ownerKeyed_deleteList ownerKeyed_shareList ownerKeyed_addTask ownerKeyed_updateTask
        ownerKeyed_deleteTask ownerKeyed_toggleTask)

lemma ownerKeyed_initial: "ownerKeyed initialServiceState"
  by (simp add: ownerKeyed_def initialServiceState_def)

lemma deleteList_owner_check:
  assumes "ownerKeyed st"
  shows "fst (deleteList users st uid lid) \<noteq> Inl OnlyOwnerDelete"
proof (cases "find (\<lambda>l. listId l = lid) (getListsOrEmpty st uid)")
  case None
  then show ?thesis by (simp add: deleteList_def)
next
  case (Some l)
  then have "l \<in> set (getListsOrEmpty st uid)" by (auto simp add: find_Some_iff)
  with assms have "ownerId l = uid" by (rule ownerKeyed_mem)
  with Some show ?thesis by (simp add: deleteList_def Let_def)
qed

text \<open>In an owner-keyed storage a caller without access to a list id holds no list with
  that id: every call of such a caller then fails with the not-found error.\<close>

lemma noAccess_ownerKeyed:
  assumes "ownerKeyed st" and "noAccess users st uid lid"
  shows "\<not> ownCopy st uid lid"
proof
  assume "ownCopy st uid lid"
  then obtain l where l: "l \<in> set (getListsOrEmpty st uid)" "listId l = lid"
    by (auto simp add: ownCopy_def list_ex_iff)
  from ownerKeyed_mem[OF assms(1) l(1)] noAccess_own[OF assms(2) l] show False by simp
qed

text \<open>
  C10. In every state that calls of the operations reach from the empty storage, each list
  stored under the key of a user has that user as its owner; every operation keeps it so
  (\<open>createList\<close> and the sample data of \<open>loadUserLists\<close> write lists of the caller into
  the caller's collection, \<open>updateList\<close>, \<open>shareList\<close> and the task operations write the
  list back into the owner's collection with its owner unchanged, \<open>deleteList\<close> only
  removes); hence the owner check of \<open>deleteList\<close> never refuses.
\<close>

theorem C10_owner_keyed_storage:
  assumes "reachable st"
  shows "ownerKeyed st
         \<and> ownerKeyed (exec stringify users gen now st op)
         \<and> fst (deleteList users st uid lid) \<noteq> Inl OnlyOwnerDelete"
proof -
  from assms have "ownerKeyed st"
    by (induction rule: reachable.induct) (simp_all add: ownerKeyed_initial ownerKeyed_exec)
  then show ?thesis by (simp add: ownerKeyed_exec deleteList_owner_check)
qed

theorem C10_owner_keyed_storage_witness:
  "reachable createdState
   \<and> ownerKeyed createdState
   \<and> map (\<lambda>l. (listId l, ownerId l)) (getListsOrEmpty createdState ''1'') = [(''id'', ''1'')]
   \<and> fst (deleteList MOCK_USERS createdState ''1'' ''id'') \<noteq> Inl OnlyOwnerDelete"
proof -
  have r: "reachable createdState"
    unfolding createdState_def by (rule reachable.step[OF reachable.initial])
  have g: "map (\<lambda>l. (listId l, ownerId l)) (getListsOrEmpty createdState ''1'') = [(''id'', ''1'')]"
    by (simp add: createdState_def createList_def initialServiceState_def exampleGen_def
        validationSchemas_createList_def validators_listTitle_def validators_taskText_def
        isValidListTitle_def isValidTaskText_def trim_def isSpace_def errs_def
        MIN_LIST_TITLE_LENGTH_def MAX_LIST_TITLE_LENGTH_def MIN_TASK_TEXT_LENGTH_def
        MAX_TASK_TEXT_LENGTH_def MAX_TASKS_PER_LIST_def getListsOrEmpty_def store_saveUserLists
        Let_def)
  from C10_owner_keyed_storage[OF r, of stringifyEmpty MOCK_USERS exampleGen 2000
        "DeleteList ''1'' ''id''" "''1''" "''id''"] r g
  show ?thesis by simp
qed

end
